theory Spec2Isabelle
  imports
    Complex_Main
    "HOL-Library.Char_ord"
    "HOL-Library.List_Lexorder"
    "HOL-Library.Product_Lexorder"
    "HOL-Library.Multiset"
    "HOL-Library.Sublist"
begin

section \<open>Python values, exceptions and strings\<close>

text \<open>
  The exceptions that the modelled code can raise or catch. A function that may raise
  returns \<open>error + 'a\<close>, with \<open>Inl\<close> for the exception.
\<close>

datatype error =
    KeyError | TypeError | AttributeError | ValueError | IndexError
  | FileNotFoundError | JSONDecodeError | UnicodeDecodeError
  | PermissionError | IsADirectoryError | OSError

definition bind_e :: "error + 'a \<Rightarrow> ('a \<Rightarrow> error + 'b) \<Rightarrow> error + 'b" where
  "bind_e r f = (case r of Inl e \<Rightarrow> Inl e | Inr v \<Rightarrow> f v)"

text \<open>
  A Python \<open>str\<close> is a \<open>string\<close>; a character is read as the code point of the same
  number (U+0000 to U+00FF), so \<open>length\<close> counts what \<open>len\<close> counts.
\<close>

definition code :: "char \<Rightarrow> nat" where
  "code c = of_char c"

text \<open>\<open>str.isspace\<close> on one character, which is what \<open>str.strip()\<close> removes.\<close>

definition is_space :: "char \<Rightarrow> bool" where
  "is_space c = ((9 \<le> code c \<and> code c \<le> 13) \<or> (28 \<le> code c \<and> code c \<le> 32)
                 \<or> code c = 133 \<or> code c = 160)"

definition strip :: "string \<Rightarrow> string" where
  "strip s = rev (dropWhile is_space (rev (dropWhile is_space s)))"

text \<open>\<open>str.lower()\<close>: the upper-case letters of the range move up by 32.\<close>

definition lower_char :: "char \<Rightarrow> char" where
  "lower_char c =
     (if (65 \<le> code c \<and> code c \<le> 90) \<or> (192 \<le> code c \<and> code c \<le> 222 \<and> code c \<noteq> 215)
      then char_of (code c + 32) else c)"

definition lower :: "string \<Rightarrow> string" where
  "lower s = map lower_char s"

text \<open>\<open>a in b\<close> on strings: \<open>a\<close> occurs in \<open>b\<close> as a contiguous block.\<close>

fun str_in :: "string \<Rightarrow> string \<Rightarrow> bool" where
  "str_in a [] = (a = [])"
| "str_in a (c # cs) = (prefix a (c # cs) \<or> str_in a cs)"

text \<open>\<open>xs[i]\<close> with Python's negative indices and its IndexError.\<close>

definition getitem :: "'a list \<Rightarrow> int \<Rightarrow> error + 'a" where
  "getitem xs i =
     (if i < - int (length xs) \<or> int (length xs) \<le> i then Inl IndexError
      else Inr (xs ! nat (if i < 0 then i + int (length xs) else i)))"

text \<open>\<open>s[a:b]\<close> for \<open>0 \<le> a \<le> b\<close>; a slice never raises.\<close>

definition slice :: "'a list \<Rightarrow> nat \<Rightarrow> nat \<Rightarrow> 'a list" where
  "slice xs a b = take (b - a) (drop a xs)"

subsection \<open>The built-in \<open>int(str)\<close>\<close>

definition is_digit :: "char \<Rightarrow> bool" where
  "is_digit c = (48 \<le> code c \<and> code c \<le> 57)"

definition digit_val :: "char \<Rightarrow> nat" where
  "digit_val c = code c - 48"

text \<open>The white space that \<open>int\<close> skips on both sides of the literal.\<close>

definition is_int_space :: "char \<Rightarrow> bool" where
  "is_int_space c = ((9 \<le> code c \<and> code c \<le> 13) \<or> code c = 32 \<or> code c = 133 \<or> code c = 160)"

text \<open>Digits, with single underscores allowed between two digits.\<close>

fun digits_ok :: "string \<Rightarrow> bool" where
  "digits_ok [] = False"
| "digits_ok [c] = is_digit c"
| "digits_ok (c # d # cs) =
     (if is_digit c then (if d = CHR ''_'' then digits_ok cs else digits_ok (d # cs)) else False)"

definition digits_val :: "string \<Rightarrow> nat" where
  "digits_val s = foldl (\<lambda>acc c. 10 * acc + digit_val c) 0 (filter (\<lambda>c. c \<noteq> CHR ''_'') s)"

definition py_int :: "string \<Rightarrow> error + int" where
  "py_int s =
     (case rev (dropWhile is_int_space (rev (dropWhile is_int_space s))) of
        [] \<Rightarrow> Inl ValueError
      | c # cs \<Rightarrow>
          (let body = (if c = CHR ''+'' \<or> c = CHR ''-'' then cs else c # cs)
           in if digits_ok body
              then Inr ((if c = CHR ''-'' then - 1 else 1) * int (digits_val body))
              else Inl ValueError))"

section \<open>The date validator\<close>

text \<open>
  \<open>TaskManagerGUI.validate_date\<close>: the body of the \<open>try\<close> block, then the handler
  \<open>except (ValueError, IndexError): return False\<close>.
\<close>

definition validate_date_try :: "string \<Rightarrow> error + bool" where
  "validate_date_try date =
     (if length date \<noteq> 10 then Inr False else
      bind_e (getitem date 4) (\<lambda>c4. if c4 \<noteq> CHR ''-'' then Inr False else
      bind_e (getitem date 7) (\<lambda>c7. if c7 \<noteq> CHR ''-'' then Inr False else
      bind_e (py_int (slice date 0 4)) (\<lambda>year.
      bind_e (py_int (slice date 5 7)) (\<lambda>month.
      bind_e (py_int (slice date 8 10)) (\<lambda>day.
        if year < 1900 \<or> year > 2100 then Inr False
        else if month < 1 \<or> month > 12 then Inr False
        else
          (let days_in_month = [0, 31, 28, 31, 30, 31, 30, 31, 31, 30, 31, 30, 31 :: int];
               days_in_month =
                 (if year mod 400 = 0 \<or> (year mod 100 \<noteq> 0 \<and> year mod 4 = 0)
                  then days_in_month[2 := 29] else days_in_month)
           in bind_e (getitem days_in_month month) (\<lambda>dim.
                if day < 1 \<or> day > dim then Inr False else Inr True))))))))"

definition validate_date :: "string \<Rightarrow> error + bool" where
  "validate_date date =
     (case validate_date_try date of
        Inl ValueError \<Rightarrow> Inr False
      | Inl IndexError \<Rightarrow> Inr False
      | Inl e \<Rightarrow> Inl e
      | Inr b \<Rightarrow> Inr b)"

text \<open>The validator as the specification words it.\<close>

definition leap_year :: "int \<Rightarrow> bool" where
  "leap_year y = (y mod 400 = 0 \<or> (y mod 4 = 0 \<and> y mod 100 \<noteq> 0))"

definition days_in :: "int \<Rightarrow> int \<Rightarrow> int" where
  "days_in y m =
     (if m = 2 then (if leap_year y then 29 else 28)
      else if m = 4 \<or> m = 6 \<or> m = 9 \<or> m = 11 then 30 else 31)"

definition date_spec :: "string \<Rightarrow> bool" where
  "date_spec date =
     (length date = 10 \<and> date ! 4 = CHR ''-'' \<and> date ! 7 = CHR ''-'' \<and>
      (\<exists>y m d. py_int (take 4 date) = Inr y \<and> py_int (take 2 (drop 5 date)) = Inr m \<and>
               py_int (take 2 (drop 8 date)) = Inr d \<and>
               1900 \<le> y \<and> y \<le> 2100 \<and> 1 \<le> m \<and> m \<le> 12 \<and> 1 \<le> d \<and> d \<le> days_in y m))"

section \<open>JSON documents and tasks\<close>

text \<open>
  What \<open>json.load\<close> returns: \<open>None\<close>, a bool, an int, a float, a str, a list, or a
  dict with string keys. \<open>JObj kvs\<close> is the dict with the items \<open>kvs\<close>, looked up with
  \<open>map_of\<close>. Python checks no types, so the four attributes of a task hold such values
  too: whatever \<open>from_dict\<close> found in the file, or whatever the caller passed.
\<close>

datatype json =
    JNull | JBool bool | JInt int | JFloat real | JStr string
  | JArr "json list" | JObj "(string \<times> json) list"

record task =
  name :: json
  description :: json
  priority :: json
  due_date :: json

definition Task :: "json \<Rightarrow> json \<Rightarrow> json \<Rightarrow> json \<Rightarrow> task" where
  "Task n d p dd = \<lparr>name = n, description = d, priority = p, due_date = dd\<rparr>"

definition to_dict :: "task \<Rightarrow> json" where
  "to_dict t =
     JObj [(''name'', name t), (''description'', description t),
           (''priority'', priority t), (''due_date'', due_date t)]"

text \<open>\<open>obj[key]\<close> with a string key: only a dict accepts it.\<close>

fun subscript :: "json \<Rightarrow> string \<Rightarrow> error + json" where
  "subscript (JObj kvs) k = (case map_of kvs k of None \<Rightarrow> Inl KeyError | Some v \<Rightarrow> Inr v)"
| "subscript _ k = Inl TypeError"

definition from_dict :: "json \<Rightarrow> error + task" where
  "from_dict task_dict =
     bind_e (subscript task_dict ''name'') (\<lambda>n.
     bind_e (subscript task_dict ''description'') (\<lambda>d.
     bind_e (subscript task_dict ''priority'') (\<lambda>p.
     bind_e (subscript task_dict ''due_date'') (\<lambda>dd.
       Inr (Task n d p dd)))))"

text \<open>
  \<open>for x in obj\<close>: a list yields its elements, a str its characters, a dict its keys;
  nothing else is iterable.
\<close>

fun py_iter :: "json \<Rightarrow> error + json list" where
  "py_iter (JArr xs) = Inr xs"
| "py_iter (JStr s) = Inr (map (\<lambda>c. JStr [c]) s)"
| "py_iter (JObj kvs) = Inr (map (\<lambda>kv. JStr (fst kv)) kvs)"
| "py_iter _ = Inl TypeError"

text \<open>A list comprehension \<open>[f(x) for x in xs]\<close>: the first exception ends it.\<close>

fun map_e :: "('a \<Rightarrow> error + 'b) \<Rightarrow> 'a list \<Rightarrow> error + 'b list" where
  "map_e f [] = Inr []"
| "map_e f (x # xs) = bind_e (f x) (\<lambda>y. bind_e (map_e f xs) (\<lambda>ys. Inr (y # ys)))"

text \<open>A list comprehension \<open>[x for x in xs if p(x)]\<close>.\<close>

fun filter_e :: "('a \<Rightarrow> error + bool) \<Rightarrow> 'a list \<Rightarrow> error + 'a list" where
  "filter_e p [] = Inr []"
| "filter_e p (x # xs) =
     bind_e (p x) (\<lambda>b. bind_e (filter_e p xs) (\<lambda>ys. Inr (if b then x # ys else ys)))"

text \<open>\<open>v.lower()\<close> on an attribute: only a str has the method.\<close>

fun str_lower :: "json \<Rightarrow> error + string" where
  "str_lower (JStr s) = Inr (lower s)"
| "str_lower _ = Inl AttributeError"

section \<open>The backing file\<close>

text \<open>
  A file is modelled by what a reader gets from it: \<open>Doc v\<close> is a text that
  \<open>json.load\<close> decodes to \<open>v\<close>, \<open>Truncated\<close> the empty file that \<open>open(path, "w")\<close>
  leaves before anything is written, \<open>Invalid\<close> any other text that \<open>json.load\<close>
  rejects with JSONDecodeError. \<open>Undecodable\<close> is a file whose bytes are no text in the
  encoding of \<open>open\<close> (reading it raises UnicodeDecodeError), \<open>Oversized\<close> a JSON text
  with an integer literal beyond the digit limit of \<open>int\<close> (decoding it raises a plain
  ValueError). \<open>json.dump\<close> followed by \<open>json.load\<close> gives the value back: that is the
  contract of the library, which the model takes as given.

  The operating system can refuse a write. \<open>write_refused\<close> says for which paths and
  how: with \<open>NoDirectory\<close> (the directory of the path is missing, or the path is empty),
  \<open>NoPermission\<close> and \<open>IsDirectory\<close> it is \<open>open(path, "w")\<close> that raises, and the file
  is not touched; with \<open>DiskFull\<close> the file is opened and emptied, and the write raises
  with nothing of the text in the file. The empty path names no file: every \<open>open\<close> of
  it raises FileNotFoundError.
\<close>

type_synonym path = string

datatype content = Truncated | Invalid | Undecodable | Oversized | Doc json

datatype refusal = NoDirectory | NoPermission | IsDirectory | DiskFull

datatype fs_write = Truncate path | Dump path json

record store =
  json_file :: path
  tasks :: "task list"
  disk :: "path \<rightharpoonup> content"
  write_refused :: "path \<rightharpoonup> refusal"
  writes :: "fs_write list"

text \<open>A method returns its value or its exception, and the state it leaves.\<close>

type_synonym 'a outcome = "(error + 'a) \<times> store"

definition open_r :: "path \<Rightarrow> store \<Rightarrow> error + content" where
  "open_r p s =
     (if p = [] then Inl FileNotFoundError
      else case disk s p of None \<Rightarrow> Inl FileNotFoundError | Some c \<Rightarrow> Inr c)"

definition json_load :: "content \<Rightarrow> error + json" where
  "json_load c =
     (case c of
        Doc v \<Rightarrow> Inr v
      | Undecodable \<Rightarrow> Inl UnicodeDecodeError
      | Oversized \<Rightarrow> Inl ValueError
      | _ \<Rightarrow> Inl JSONDecodeError)"

definition refusal_of :: "path \<Rightarrow> store \<Rightarrow> refusal option" where
  "refusal_of p s = (if p = [] then Some NoDirectory else write_refused s p)"

definition open_w :: "path \<Rightarrow> store \<Rightarrow> error + store" where
  "open_w p s =
     (case refusal_of p s of
        Some NoDirectory \<Rightarrow> Inl FileNotFoundError
      | Some NoPermission \<Rightarrow> Inl PermissionError
      | Some IsDirectory \<Rightarrow> Inl IsADirectoryError
      | _ \<Rightarrow> Inr (s\<lparr>disk := (disk s)(p \<mapsto> Truncated), writes := writes s @ [Truncate p]\<rparr>))"

definition json_dump :: "json \<Rightarrow> path \<Rightarrow> store \<Rightarrow> error + store" where
  "json_dump v p s =
     (if refusal_of p s = Some DiskFull then Inl OSError
      else Inr (s\<lparr>disk := (disk s)(p \<mapsto> Doc v), writes := writes s @ [Dump p v]\<rparr>))"

section \<open>The task manager\<close>

definition load_tasks_from_json :: "store \<Rightarrow> unit outcome" where
  "load_tasks_from_json s =
     (case bind_e (open_r (json_file s) s) (\<lambda>file.
           bind_e (json_load file) (\<lambda>task_dicts.
           bind_e (py_iter task_dicts) (map_e from_dict))) of
        Inr ts \<Rightarrow> (Inr (), s\<lparr>tasks := ts\<rparr>)
      | Inl FileNotFoundError \<Rightarrow> (Inr (), s\<lparr>tasks := []\<rparr>)
      | Inl JSONDecodeError \<Rightarrow> (Inr (), s\<lparr>tasks := []\<rparr>)
      | Inl e \<Rightarrow> (Inl e, s))"

text \<open>
  \<open>TaskManager(json_file)\<close> on a file system with the files \<open>d\<close> and the refusals \<open>w\<close>.
\<close>

definition init :: "path \<Rightarrow> (path \<rightharpoonup> content) \<Rightarrow> (path \<rightharpoonup> refusal) \<Rightarrow> unit outcome" where
  "init f d w =
     load_tasks_from_json \<lparr>json_file = f, tasks = [], disk = d, write_refused = w, writes = []\<rparr>"

text \<open>
  \<open>save_tasks_to_json\<close> makes two writes, in this order: \<open>open(..., "w")\<close> empties the
  target, then \<open>json.dump\<close> fills it. Nothing catches an error of either; the state is
  then as the failing write found it. \<open>save_steps\<close> lists the states that the file system
  passes through in a save.
\<close>

definition save_tasks_to_json :: "store \<Rightarrow> unit outcome" where
  "save_tasks_to_json s =
     (case open_w (json_file s) s of
        Inl e \<Rightarrow> (Inl e, s)
      | Inr s1 \<Rightarrow>
          (let task_dicts = JArr (map to_dict (tasks s1))
           in case json_dump task_dicts (json_file s1) s1 of
                Inl e \<Rightarrow> (Inl e, s1)
              | Inr s2 \<Rightarrow> (Inr (), s2)))"

definition save_steps :: "store \<Rightarrow> store list" where
  "save_steps s =
     (case open_w (json_file s) s of
        Inl e \<Rightarrow> []
      | Inr s1 \<Rightarrow>
          (let task_dicts = JArr (map to_dict (tasks s1))
           in case json_dump task_dicts (json_file s1) s1 of
                Inl e \<Rightarrow> [s1]
              | Inr s2 \<Rightarrow> [s1, s2]))"

definition get_filtered_tasks ::
  "string option \<Rightarrow> string option \<Rightarrow> string option \<Rightarrow> store \<Rightarrow> task list outcome" where
  "get_filtered_tasks name_filter priority_filter due_date_filter s =
     (let filtered_tasks = Inr (tasks s);
          filtered_tasks =
            (case name_filter of
               Some nf \<Rightarrow>
                 if nf \<noteq> [] \<and> strip nf \<noteq> []
                 then bind_e filtered_tasks
                        (filter_e (\<lambda>t. bind_e (str_lower (name t)) (\<lambda>n. Inr (str_in (lower nf) n))))
                 else filtered_tasks
             | None \<Rightarrow> filtered_tasks);
          filtered_tasks =
            (case priority_filter of
               Some pf \<Rightarrow>
                 if pf \<noteq> [] \<and> strip pf \<noteq> [] \<and> lower pf \<noteq> ''all''
                 then bind_e filtered_tasks
                        (filter_e (\<lambda>t. bind_e (str_lower (priority t)) (\<lambda>p. Inr (p = lower pf))))
                 else filtered_tasks
             | None \<Rightarrow> filtered_tasks);
          filtered_tasks =
            (case due_date_filter of
               Some df \<Rightarrow>
                 if df \<noteq> [] \<and> strip df \<noteq> []
                 then bind_e filtered_tasks (filter_e (\<lambda>t. Inr (due_date t = JStr df)))
                 else filtered_tasks
             | None \<Rightarrow> filtered_tasks)
      in (filtered_tasks, s))"

subsection \<open>\<open>datetime.strptime(s, "%Y-%m-%d")\<close>\<close>

text \<open>
  The library turns the format into the regular expression
  \<open>(\d\d\d\d)-(1[0-2]|0[1-9]|[1-9])-(3[0-1]|[1-2]\d|0[1-9]|[1-9]| [1-9])\<close>, matches it at
  the start of the string, rejects the string when the match does not end where the
  string ends, and builds a date, which must exist (years start at 1). Every failure is
  a ValueError. The alternatives of a group are tried in the order written.
\<close>

definition month_alts :: "string \<Rightarrow> (nat \<times> string) list" where
  "month_alts s =
     (case s of c # d # r \<Rightarrow>
        if c = CHR ''1'' \<and> (d = CHR ''0'' \<or> d = CHR ''1'' \<or> d = CHR ''2'')
        then [(10 + digit_val d, r)] else [] | _ \<Rightarrow> [])
     @ (case s of c # d # r \<Rightarrow>
        if c = CHR ''0'' \<and> is_digit d \<and> d \<noteq> CHR ''0''
        then [(digit_val d, r)] else [] | _ \<Rightarrow> [])
     @ (case s of c # r \<Rightarrow>
        if is_digit c \<and> c \<noteq> CHR ''0'' then [(digit_val c, r)] else [] | _ \<Rightarrow> [])"

definition day_alts :: "string \<Rightarrow> (nat \<times> string) list" where
  "day_alts s =
     (case s of c # d # r \<Rightarrow>
        if c = CHR ''3'' \<and> (d = CHR ''0'' \<or> d = CHR ''1'')
        then [(30 + digit_val d, r)] else [] | _ \<Rightarrow> [])
     @ (case s of c # d # r \<Rightarrow>
        if (c = CHR ''1'' \<or> c = CHR ''2'') \<and> is_digit d
        then [(10 * digit_val c + digit_val d, r)] else [] | _ \<Rightarrow> [])
     @ (case s of c # d # r \<Rightarrow>
        if c = CHR ''0'' \<and> is_digit d \<and> d \<noteq> CHR ''0''
        then [(digit_val d, r)] else [] | _ \<Rightarrow> [])
     @ (case s of c # r \<Rightarrow>
        if is_digit c \<and> c \<noteq> CHR ''0'' then [(digit_val c, r)] else [] | _ \<Rightarrow> [])
     @ (case s of c # d # r \<Rightarrow>
        if c = CHR '' '' \<and> is_digit d \<and> d \<noteq> CHR ''0''
        then [(digit_val d, r)] else [] | _ \<Rightarrow> [])"

text \<open>The first way to match the expression: the date fields and the unread rest.\<close>

definition re_match :: "string \<Rightarrow> ((nat \<times> nat \<times> nat) \<times> string) option" where
  "re_match s =
     (case s of
        y1 # y2 # y3 # y4 # dash # r1 \<Rightarrow>
          if is_digit y1 \<and> is_digit y2 \<and> is_digit y3 \<and> is_digit y4 \<and> dash = CHR ''-''
          then
            (case concat (map (\<lambda>(m, r2).
                     case r2 of
                       dash2 # r3 \<Rightarrow>
                         if dash2 = CHR ''-'' then map (\<lambda>(d, r4). (m, d, r4)) (day_alts r3)
                         else []
                     | [] \<Rightarrow> []) (month_alts r1)) of
               [] \<Rightarrow> None
             | (m, d, r4) # _ \<Rightarrow> Some ((digits_val [y1, y2, y3, y4], m, d), r4))
          else None
      | _ \<Rightarrow> None)"

definition is_leap :: "nat \<Rightarrow> bool" where
  "is_leap y = (y mod 4 = 0 \<and> (y mod 100 \<noteq> 0 \<or> y mod 400 = 0))"

definition days_in_month :: "nat \<Rightarrow> nat \<Rightarrow> nat" where
  "days_in_month y m =
     (if m = 2 \<and> is_leap y then 29
      else [0, 31, 28, 31, 30, 31, 30, 31, 31, 30, 31, 30, 31] ! m)"

definition strptime :: "string \<Rightarrow> error + nat \<times> nat \<times> nat" where
  "strptime s =
     (case re_match s of
        None \<Rightarrow> Inl ValueError
      | Some ((y, m, d), rest) \<Rightarrow>
          if rest \<noteq> [] then Inl ValueError
          else if y < 1 \<or> days_in_month y m < d then Inl ValueError
          else Inr (y, m, d))"

text \<open>The key of the sort by due date; \<open>strptime\<close> wants a str.\<close>

fun due_key :: "json \<Rightarrow> error + nat \<times> nat \<times> nat" where
  "due_key (JStr s) = strptime s"
| "due_key _ = Inl TypeError"

subsection \<open>\<open>list.sort(key=..., reverse=...)\<close>\<close>

text \<open>
  The library computes the key of every element first, in list order; an exception
  there leaves the list as it was. Then it sorts stably: elements with equal keys keep
  their order, also with \<open>reverse=True\<close>, where it reverses the list, sorts, and reverses
  the result.
\<close>

definition py_sort :: "('a \<Rightarrow> error + 'k::linorder) \<Rightarrow> bool \<Rightarrow> 'a list \<Rightarrow> error + 'a list" where
  "py_sort key reverse xs =
     bind_e (map_e key xs) (\<lambda>ks.
       let ps = zip ks xs
       in Inr (map snd (if reverse then rev (sort_key fst (rev ps)) else sort_key fst ps)))"

definition priority_order :: "(string \<times> nat) list" where
  "priority_order = [(''high'', 0), (''medium'', 1), (''low'', 2)]"

definition priority_key :: "json \<Rightarrow> error + nat" where
  "priority_key p =
     bind_e (str_lower p) (\<lambda>l.
       Inr (case map_of priority_order l of None \<Rightarrow> 3 | Some r \<Rightarrow> r))"

definition sort_tasks :: "string \<Rightarrow> bool \<Rightarrow> store \<Rightarrow> task list outcome" where
  "sort_tasks key_name reverse s =
     (let sorted_tasks =
        (if key_name = ''name''
         then py_sort (\<lambda>t. str_lower (name t)) reverse (tasks s)
         else if key_name = ''priority''
         then py_sort (\<lambda>t. priority_key (priority t)) reverse (tasks s)
         else if key_name = ''due_date''
         then py_sort (\<lambda>t. due_key (due_date t)) reverse (tasks s)
         else Inr (tasks s))
      in case sorted_tasks of
           Inl e \<Rightarrow> (Inl e, s)
         | Inr ts \<Rightarrow> (Inr ts, s\<lparr>tasks := ts\<rparr>))"

definition add_task :: "json \<Rightarrow> json \<Rightarrow> json \<Rightarrow> json \<Rightarrow> store \<Rightarrow> task outcome" where
  "add_task n d p dd s =
     (let t = Task n d p dd;
          s = s\<lparr>tasks := tasks s @ [t]\<rparr>
      in case save_tasks_to_json s of
           (Inl e, s) \<Rightarrow> (Inl e, s)
         | (Inr u, s) \<Rightarrow> (Inr t, s))"

definition update_task :: "int \<Rightarrow> json \<Rightarrow> json \<Rightarrow> json \<Rightarrow> json \<Rightarrow> store \<Rightarrow> bool outcome" where
  "update_task index n d p dd s =
     (if 0 \<le> index \<and> index < int (length (tasks s))
      then
        (let s = s\<lparr>tasks := (tasks s)[nat index := Task n d p dd]\<rparr>
         in case save_tasks_to_json s of
              (Inl e, s) \<Rightarrow> (Inl e, s)
            | (Inr u, s) \<Rightarrow> (Inr True, s))
      else (Inr False, s))"

text \<open>\<open>del xs[i]\<close> for an index in range.\<close>

definition del_item :: "'a list \<Rightarrow> nat \<Rightarrow> 'a list" where
  "del_item xs i = take i xs @ drop (Suc i) xs"

definition delete_task :: "int \<Rightarrow> store \<Rightarrow> bool outcome" where
  "delete_task index s =
     (if 0 \<le> index \<and> index < int (length (tasks s))
      then
        (let s = s\<lparr>tasks := del_item (tasks s) (nat index)\<rparr>
         in case save_tasks_to_json s of
              (Inl e, s) \<Rightarrow> (Inl e, s)
            | (Inr u, s) \<Rightarrow> (Inr True, s))
      else (Inr False, s))"

section \<open>Notions the properties are stated with\<close>

text \<open>A task as the data model has it: each of the four attributes is a str.\<close>

fun is_str :: "json \<Rightarrow> bool" where
  "is_str (JStr s) = True"
| "is_str _ = False"

definition str_task :: "task \<Rightarrow> bool" where
  "str_task t =
     (is_str (name t) \<and> is_str (description t) \<and> is_str (priority t) \<and> is_str (due_date t))"

text \<open>The exception that a refused write raises.\<close>

definition refusal_error :: "refusal \<Rightarrow> error" where
  "refusal_error r =
     (case r of
        NoDirectory \<Rightarrow> FileNotFoundError
      | NoPermission \<Rightarrow> PermissionError
      | IsDirectory \<Rightarrow> IsADirectoryError
      | DiskFull \<Rightarrow> OSError)"

text \<open>
  Atomic replacement, as a reader of the target sees it: at every moment of a save the
  target holds what it held before, or the complete new document.
\<close>

definition atomic_save :: "store \<Rightarrow> bool" where
  "atomic_save s =
     list_all (\<lambda>st. disk st (json_file s) = disk s (json_file s)
                   \<or> disk st (json_file s) = Some (Doc (JArr (map to_dict (tasks s)))))
       (save_steps s)"

text \<open>
  The filter as the specification words it. A filter that is absent or blank (empty or
  white space only) lets every task through; the name filter asks for its lower-cased
  text inside the lower-cased name, the priority filter for equal lower-cased texts
  unless it is \<open>all\<close> in any case, the date filter for the same string.
\<close>

definition blank :: "string \<Rightarrow> bool" where
  "blank s = list_all is_space s"

definition filter_spec :: "string option \<Rightarrow> string option \<Rightarrow> string option \<Rightarrow> task \<Rightarrow> bool" where
  "filter_spec nf pf df t =
     ((case nf of None \<Rightarrow> True
       | Some f \<Rightarrow> blank f \<or> (\<exists>n. name t = JStr n \<and> sublist (lower f) (lower n)))
    \<and> (case pf of None \<Rightarrow> True
       | Some f \<Rightarrow> blank f \<or> lower f = ''all'' \<or> (\<exists>p. priority t = JStr p \<and> lower p = lower f))
    \<and> (case df of None \<Rightarrow> True
       | Some f \<Rightarrow> blank f \<or> due_date t = JStr f))"

text \<open>
  The rank of a task in the priority order of the specification: high before medium
  before low before any other value, whatever the case of the letters. And the stable
  sort by a key, ascending or descending, that \<open>list.sort\<close> computes when no key raises.
\<close>

definition priority_rank :: "task \<Rightarrow> nat" where
  "priority_rank t =
     (if \<exists>p. priority t = JStr p \<and> lower p = ''high'' then 0
      else if \<exists>p. priority t = JStr p \<and> lower p = ''medium'' then 1
      else if \<exists>p. priority t = JStr p \<and> lower p = ''low'' then 2
      else 3)"

definition stable_sort :: "('a \<Rightarrow> 'k::linorder) \<Rightarrow> bool \<Rightarrow> 'a list \<Rightarrow> 'a list" where
  "stable_sort k reverse xs = (if reverse then rev (sort_key k (rev xs)) else sort_key k xs)"

text \<open>
  The form YYYY-MM-DD read strictly: four digits, two digits, two digits, with \<open>-\<close>
  between them. The date that \<open>strptime\<close> reads from a task, and whether it accepts the
  task's due date at all.
\<close>

definition ymd_form :: "string \<Rightarrow> bool" where
  "ymd_form s =
     (length s = 10 \<and> list_all is_digit (take 4 s) \<and> s ! 4 = CHR ''-''
      \<and> list_all is_digit (take 2 (drop 5 s)) \<and> s ! 7 = CHR ''-''
      \<and> list_all is_digit (drop 8 s))"

definition parsed_date :: "task \<Rightarrow> nat \<times> nat \<times> nat" where
  "parsed_date t = projr (due_key (due_date t))"

definition accepted :: "task \<Rightarrow> bool" where
  "accepted t = (\<exists>d ymd. due_date t = JStr d \<and> strptime d = Inr ymd)"

text \<open>Four tasks to try the sorts on.\<close>

definition demo_tasks :: "task list" where
  "demo_tasks =
     [Task (JStr ''write'') (JStr '''') (JStr ''low'') (JStr ''2024-1-5''),
      Task (JStr ''Call'') (JStr '''') (JStr ''High'') (JStr ''2023-12-31''),
      Task (JStr ''book'') (JStr '''') (JStr ''urgent'') (JStr ''2024-01-05''),
      Task (JStr ''Audit'') (JStr '''') (JStr ''high'') (JStr ''2024-01-04'')]"

definition demo_store :: "task list \<Rightarrow> store" where
  "demo_store ts = \<lparr>json_file = ''tasks.json'', tasks = ts, disk = Map.empty, write_refused = Map.empty, writes = []\<rparr>"

section \<open>Properties of the date validator\<close>

lemma getitem_in_range:
  "0 \<le> i \<Longrightarrow> nat i < length xs \<Longrightarrow> getitem xs i = Inr (xs ! nat i)"
  by (auto simp: getitem_def Let_def)

lemma month_table_lookup:
  assumes "1 \<le> m" "m \<le> 12"
  shows "getitem (if year mod 400 = 0 \<or> (year mod 100 \<noteq> 0 \<and> year mod 4 = 0)
                  then [0, 31, 28, 31, 30, 31, 30, 31, 31, 30, 31, 30, 31 :: int][2 := 29]
                  else [0, 31, 28, 31, 30, 31, 30, 31, 31, 30, 31, 30, 31]) m
         = Inr (days_in year m)"
proof -
  from assms have "m = 1 \<or> m = 2 \<or> m = 3 \<or> m = 4 \<or> m = 5 \<or> m = 6 \<or> m = 7 \<or> m = 8
      \<or> m = 9 \<or> m = 10 \<or> m = 11 \<or> m = 12"
    by arith
  then show ?thesis
    by (elim disjE) (simp_all add: getitem_def days_in_def leap_year_def)
qed

lemma py_int_error: "py_int s = Inl e \<Longrightarrow> e = ValueError"
  by (auto simp: py_int_def Let_def split: list.splits if_splits)

lemma validate_date_eq_spec: "validate_date date = Inr (date_spec date)"
proof (cases "length date = 10")
  case False
  then show ?thesis
    by (simp add: validate_date_def validate_date_try_def date_spec_def)
next
  case len: True
  then have g: "getitem date 4 = Inr (date ! 4)" "getitem date 7 = Inr (date ! 7)"
    by (simp_all add: getitem_def)
  have sl: "slice date 0 4 = take 4 date" "slice date 5 7 = take 2 (drop 5 date)"
    "slice date 8 10 = take 2 (drop 8 date)"
    by (simp_all add: slice_def)
  note unf = validate_date_def validate_date_try_def date_spec_def bind_e_def
  show ?thesis
  proof (cases "date ! 4 = CHR ''-'' \<and> date ! 7 = CHR ''-''")
    case False
    then show ?thesis using len g by (auto simp add: unf)
  next
    case dash: True
    show ?thesis
    proof (cases "py_int (take 4 date)")
      case (Inl e)
      with py_int_error have "py_int (take 4 date) = Inl ValueError" by blast
      then show ?thesis using len g dash sl by (simp add: unf)
    next
      case y: (Inr year)
      show ?thesis
      proof (cases "py_int (take 2 (drop 5 date))")
        case (Inl e)
        with py_int_error have "py_int (take 2 (drop 5 date)) = Inl ValueError" by blast
        then show ?thesis using len g dash sl y by (simp add: unf)
      next
        case m: (Inr month)
        show ?thesis
        proof (cases "py_int (take 2 (drop 8 date))")
          case (Inl e)
          with py_int_error have "py_int (take 2 (drop 8 date)) = Inl ValueError" by blast
          then show ?thesis using len g dash sl y m by (simp add: unf)
        next
          case d: (Inr day)
          show ?thesis
          proof (cases "1900 \<le> year \<and> year \<le> 2100 \<and> 1 \<le> month \<and> month \<le> 12")
            case False
            then show ?thesis using len g dash sl y m d by (auto simp add: unf)
          next
            case True
            then have "1 \<le> month" "month \<le> 12" by simp_all
            note tl = month_table_lookup [OF this, of year]
            show ?thesis using len g dash sl y m d True tl
              by (auto simp add: unf Let_def)
          qed
        qed
      qed
    qed
  qed
qed

lemmas validate_defs = validate_date_def validate_date_try_def bind_e_def getitem_def slice_def
  py_int_def is_int_space_def code_def digits_val_def digit_val_def is_digit_def

text \<open>
  C8. For every string, \<open>validate_date\<close> returns without raising, and returns True
  exactly when the string has 10 characters with \<open>-\<close> at positions 4 and 7, its year,
  month and day positions are accepted by \<open>int\<close>, the year is in 1900..2100, the month
  in 1..12 and the day in 1..days-in-month, February having 29 days exactly in the years
  divisible by 400, or by 4 and not by 100. 2024-02-29 is accepted; 2023-02-29,
  1899-12-31, 2024-13-01 and 2024-04-31 are rejected.
\<close>

theorem validate_date_correct:
  "validate_date date = Inr (date_spec date)
   \<and> validate_date ''2024-02-29'' = Inr True
   \<and> validate_date ''2023-02-29'' = Inr False
   \<and> validate_date ''1899-12-31'' = Inr False
   \<and> validate_date ''2024-13-01'' = Inr False
   \<and> validate_date ''2024-04-31'' = Inr False"
proof (intro conjI)
  show "validate_date date = Inr (date_spec date)" by (rule validate_date_eq_spec)
  show "validate_date ''2024-02-29'' = Inr True" by (simp add: validate_defs)
  show "validate_date ''2023-02-29'' = Inr False" by (simp add: validate_defs)
  show "validate_date ''1899-12-31'' = Inr False" by (simp add: validate_defs)
  show "validate_date ''2024-13-01'' = Inr False" by (simp add: validate_defs)
  show "validate_date ''2024-04-31'' = Inr False" by (simp add: validate_defs)
qed

theorem validate_date_correct_witness:
  "date_spec ''2024-02-29'' \<and> \<not> date_spec ''2024-04-31''"
  using validate_date_correct [of "''2024-02-29''"] validate_date_correct [of "''2024-04-31''"]
  by simp

section \<open>Properties of saving and loading\<close>

lemma refusal_of_frame [simp]:
  "refusal_of p (s\<lparr>tasks := ts\<rparr>) = refusal_of p s"
  "refusal_of p (s\<lparr>disk := d\<rparr>) = refusal_of p s"
  "refusal_of p (s\<lparr>writes := w\<rparr>) = refusal_of p s"
  by (simp_all add: refusal_of_def)

lemma refusal_of_None_path: "refusal_of p s = None \<Longrightarrow> p \<noteq> []"
  by (auto simp add: refusal_of_def)

lemma save_ok:
  assumes "refusal_of (json_file s) s = None"
  shows "save_tasks_to_json s =
     (Inr (),
      s\<lparr>disk := (disk s)(json_file s \<mapsto> Doc (JArr (map to_dict (tasks s)))),
        writes := writes s @ [Truncate (json_file s),
                              Dump (json_file s) (JArr (map to_dict (tasks s)))]\<rparr>)"
  using assms by (simp add: save_tasks_to_json_def open_w_def json_dump_def Let_def)

lemma save_steps_ok:
  assumes "refusal_of (json_file s) s = None"
  shows "save_steps s =
     [s\<lparr>disk := (disk s)(json_file s \<mapsto> Truncated),
        writes := writes s @ [Truncate (json_file s)]\<rparr>,
      s\<lparr>disk := (disk s)(json_file s \<mapsto> Doc (JArr (map to_dict (tasks s)))),
        writes := writes s @ [Truncate (json_file s),
                              Dump (json_file s) (JArr (map to_dict (tasks s)))]\<rparr>]"
  using assms by (simp add: save_steps_def open_w_def json_dump_def Let_def)

lemma save_refused:
  assumes "refusal_of (json_file s) s = Some r"
  shows "save_tasks_to_json s =
     (Inl (refusal_error r),
      if r = DiskFull
      then s\<lparr>disk := (disk s)(json_file s \<mapsto> Truncated),
             writes := writes s @ [Truncate (json_file s)]\<rparr>
      else s)"
  using assms
  by (cases r)
    (simp_all add: save_tasks_to_json_def open_w_def json_dump_def Let_def refusal_error_def)

lemma save_keeps_memory:
  "tasks (snd (save_tasks_to_json s)) = tasks s
   \<and> json_file (snd (save_tasks_to_json s)) = json_file s
   \<and> write_refused (snd (save_tasks_to_json s)) = write_refused s"
proof (cases "refusal_of (json_file s) s")
  case None
  then show ?thesis by (simp add: save_ok)
next
  case (Some r)
  then show ?thesis by (simp add: save_refused)
qed

lemma save_raises_iff:
  "(\<exists>e. fst (save_tasks_to_json s) = Inl e) \<longleftrightarrow> refusal_of (json_file s) s \<noteq> None"
proof (cases "refusal_of (json_file s) s")
  case None
  then show ?thesis by (simp add: save_ok)
next
  case (Some r)
  then show ?thesis by (simp add: save_refused)
qed

lemma from_dict_to_dict: "from_dict (to_dict t) = Inr (t::task)"
  by (simp add: from_dict_def to_dict_def bind_e_def Task_def)

lemma map_e_from_dict_to_dict: "map_e from_dict (map to_dict ts) = Inr (ts :: task list)"
  by (induction ts) (simp_all add: from_dict_to_dict bind_e_def)

lemma init_on_dump:
  "f \<noteq> [] \<Longrightarrow>
   init f (d(f \<mapsto> Doc (JArr (map to_dict ts)))) w
     = (Inr (), \<lparr>json_file = f, tasks = ts, disk = d(f \<mapsto> Doc (JArr (map to_dict ts))),
                 write_refused = w, writes = []\<rparr>)"
  by (simp add: init_def load_tasks_from_json_def open_r_def json_load_def bind_e_def
      map_e_from_dict_to_dict)

lemma load_on_dump:
  assumes "json_file s \<noteq> []" "disk s (json_file s) = Some (Doc (JArr (map to_dict ts)))"
  shows "load_tasks_from_json s = (Inr (), s\<lparr>tasks := ts\<rparr>)"
  using assms
  by (simp add: load_tasks_from_json_def open_r_def json_load_def bind_e_def
      map_e_from_dict_to_dict)

text \<open>
  C7. For every sequence of tasks whose four fields are strings, saving to a file that
  can be written and then loading (in the same store, or in a store constructed afresh
  on the file) raises nothing and yields the same tasks, field by field and in the same
  order.
\<close>

theorem save_load_roundtrip:
  "list_all str_task (tasks s) \<Longrightarrow> refusal_of (json_file s) s = None \<Longrightarrow>
     fst (save_tasks_to_json s) = Inr ()
   \<and> fst (init (json_file s) (disk (snd (save_tasks_to_json s))) (write_refused s)) = Inr ()
   \<and> tasks (snd (init (json_file s) (disk (snd (save_tasks_to_json s))) (write_refused s)))
       = tasks s
   \<and> fst (load_tasks_from_json (snd (save_tasks_to_json s))) = Inr ()
   \<and> tasks (snd (load_tasks_from_json (snd (save_tasks_to_json s)))) = tasks s"
proof -
  assume free: "refusal_of (json_file s) s = None"
  then have "json_file s \<noteq> []"
    by (rule refusal_of_None_path)
  with free show ?thesis
    by (simp add: save_ok init_on_dump load_on_dump)
qed

theorem save_load_roundtrip_witness:
  "list_all str_task
     [Task (JStr ''Report'') (JStr ''Finish Q1 report'') (JStr ''high'') (JStr ''2025-04-30''),
      Task (JStr ''Call'') (JStr '''') (JStr ''low'') (JStr ''2025-05-01'')]
   \<and> tasks (snd (init ''tasks.json'' (disk (snd (save_tasks_to_json
        \<lparr>json_file = ''tasks.json'',
         tasks = [Task (JStr ''Report'') (JStr ''Finish Q1 report'') (JStr ''high'') (JStr ''2025-04-30''),
                  Task (JStr ''Call'') (JStr '''') (JStr ''low'') (JStr ''2025-05-01'')],
         disk = Map.empty, write_refused = Map.empty, writes = []\<rparr>))) Map.empty))
     = [Task (JStr ''Report'') (JStr ''Finish Q1 report'') (JStr ''high'') (JStr ''2025-04-30''),
        Task (JStr ''Call'') (JStr '''') (JStr ''low'') (JStr ''2025-05-01'')]"
  using save_load_roundtrip [of
     "\<lparr>json_file = ''tasks.json'',
       tasks = [Task (JStr ''Report'') (JStr ''Finish Q1 report'') (JStr ''high'') (JStr ''2025-04-30''),
                Task (JStr ''Call'') (JStr '''') (JStr ''low'') (JStr ''2025-05-01'')],
       disk = Map.empty, write_refused = Map.empty, writes = []\<rparr>"]
  by (simp add: str_task_def Task_def refusal_of_def)

section \<open>Properties of the mutators\<close>

lemma update_task_in_range:
  assumes "0 \<le> index" "index < int (length (tasks s))"
  shows "update_task index n d p dd s =
     (case save_tasks_to_json (s\<lparr>tasks := (tasks s)[nat index := Task n d p dd]\<rparr>) of
        (Inl e, s') \<Rightarrow> (Inl e, s') | (Inr u, s') \<Rightarrow> (Inr True, s'))"
  using assms by (simp add: update_task_def Let_def)

lemma delete_task_in_range:
  assumes "0 \<le> index" "index < int (length (tasks s))"
  shows "delete_task index s =
     (case save_tasks_to_json (s\<lparr>tasks := del_item (tasks s) (nat index)\<rparr>) of
        (Inl e, s') \<Rightarrow> (Inl e, s') | (Inr u, s') \<Rightarrow> (Inr True, s'))"
  using assms by (simp add: delete_task_def Let_def)

lemma add_task_saves:
  "snd (add_task n d p dd s)
     = snd (save_tasks_to_json (s\<lparr>tasks := tasks s @ [Task n d p dd]\<rparr>))"
proof (cases "save_tasks_to_json (s\<lparr>tasks := tasks s @ [Task n d p dd]\<rparr>)")
  case (Pair res s')
  then show ?thesis
    by (cases res) (simp_all add: add_task_def Let_def)
qed

lemma update_task_saves:
  assumes "0 \<le> i" "i < int (length (tasks s))"
  shows "snd (update_task i n d p dd s)
     = snd (save_tasks_to_json (s\<lparr>tasks := (tasks s)[nat i := Task n d p dd]\<rparr>))"
proof (cases "save_tasks_to_json (s\<lparr>tasks := (tasks s)[nat i := Task n d p dd]\<rparr>)")
  case (Pair res s')
  with assms show ?thesis
    by (cases res) (simp_all add: update_task_in_range)
qed

lemma delete_task_saves:
  assumes "0 \<le> i" "i < int (length (tasks s))"
  shows "snd (delete_task i s)
     = snd (save_tasks_to_json (s\<lparr>tasks := del_item (tasks s) (nat i)\<rparr>))"
proof (cases "save_tasks_to_json (s\<lparr>tasks := del_item (tasks s) (nat i)\<rparr>)")
  case (Pair res s')
  with assms show ?thesis
    by (cases res) (simp_all add: delete_task_in_range)
qed

text \<open>
  C6, as stated, fails in its second half: a task manager on a file that it may read
  but not write loads its task, and \<open>update_task\<close> and \<open>delete_task\<close> with the index 0,
  which is in bounds, raise PermissionError instead of returning success, after they
  have changed the sequence in memory.
\<close>

theorem update_delete_raise_counterexample:
  "init ''tasks.json''
       [''tasks.json'' \<mapsto> Doc (JArr [to_dict (Task (JStr ''a'') (JStr '''') (JStr ''high'') (JStr ''2025-04-30''))])]
       [''tasks.json'' \<mapsto> NoPermission]
     = (Inr (), \<lparr>json_file = ''tasks.json'',
          tasks = [Task (JStr ''a'') (JStr '''') (JStr ''high'') (JStr ''2025-04-30'')],
          disk = [''tasks.json'' \<mapsto> Doc (JArr [to_dict (Task (JStr ''a'') (JStr '''') (JStr ''high'') (JStr ''2025-04-30''))])],
          write_refused = [''tasks.json'' \<mapsto> NoPermission], writes = []\<rparr>)
   \<and> update_task 0 (JStr ''x'') (JStr '''') (JStr ''low'') (JStr ''2025-01-01'')
       \<lparr>json_file = ''tasks.json'',
        tasks = [Task (JStr ''a'') (JStr '''') (JStr ''high'') (JStr ''2025-04-30'')],
        disk = [''tasks.json'' \<mapsto> Doc (JArr [to_dict (Task (JStr ''a'') (JStr '''') (JStr ''high'') (JStr ''2025-04-30''))])],
        write_refused = [''tasks.json'' \<mapsto> NoPermission], writes = []\<rparr>
     = (Inl PermissionError, \<lparr>json_file = ''tasks.json'',
          tasks = [Task (JStr ''x'') (JStr '''') (JStr ''low'') (JStr ''2025-01-01'')],
          disk = [''tasks.json'' \<mapsto> Doc (JArr [to_dict (Task (JStr ''a'') (JStr '''') (JStr ''high'') (JStr ''2025-04-30''))])],
          write_refused = [''tasks.json'' \<mapsto> NoPermission], writes = []\<rparr>)
   \<and> delete_task 0
       \<lparr>json_file = ''tasks.json'',
        tasks = [Task (JStr ''a'') (JStr '''') (JStr ''high'') (JStr ''2025-04-30'')],
        disk = [''tasks.json'' \<mapsto> Doc (JArr [to_dict (Task (JStr ''a'') (JStr '''') (JStr ''high'') (JStr ''2025-04-30''))])],
        write_refused = [''tasks.json'' \<mapsto> NoPermission], writes = []\<rparr>
     = (Inl PermissionError, \<lparr>json_file = ''tasks.json'',
          tasks = [],
          disk = [''tasks.json'' \<mapsto> Doc (JArr [to_dict (Task (JStr ''a'') (JStr '''') (JStr ''high'') (JStr ''2025-04-30''))])],
          write_refused = [''tasks.json'' \<mapsto> NoPermission], writes = []\<rparr>)"
proof (intro conjI)
  show "init ''tasks.json''
       [''tasks.json'' \<mapsto> Doc (JArr [to_dict (Task (JStr ''a'') (JStr '''') (JStr ''high'') (JStr ''2025-04-30''))])]
       [''tasks.json'' \<mapsto> NoPermission]
     = (Inr (), \<lparr>json_file = ''tasks.json'',
          tasks = [Task (JStr ''a'') (JStr '''') (JStr ''high'') (JStr ''2025-04-30'')],
          disk = [''tasks.json'' \<mapsto> Doc (JArr [to_dict (Task (JStr ''a'') (JStr '''') (JStr ''high'') (JStr ''2025-04-30''))])],
          write_refused = [''tasks.json'' \<mapsto> NoPermission], writes = []\<rparr>)"
    using init_on_dump [of "''tasks.json''" Map.empty
        "[Task (JStr ''a'') (JStr '''') (JStr ''high'') (JStr ''2025-04-30'')]"
        "[''tasks.json'' \<mapsto> NoPermission]"]
    by simp
  show "update_task 0 (JStr ''x'') (JStr '''') (JStr ''low'') (JStr ''2025-01-01'')
       \<lparr>json_file = ''tasks.json'',
        tasks = [Task (JStr ''a'') (JStr '''') (JStr ''high'') (JStr ''2025-04-30'')],
        disk = [''tasks.json'' \<mapsto> Doc (JArr [to_dict (Task (JStr ''a'') (JStr '''') (JStr ''high'') (JStr ''2025-04-30''))])],
        write_refused = [''tasks.json'' \<mapsto> NoPermission], writes = []\<rparr>
     = (Inl PermissionError, \<lparr>json_file = ''tasks.json'',
          tasks = [Task (JStr ''x'') (JStr '''') (JStr ''low'') (JStr ''2025-01-01'')],
          disk = [''tasks.json'' \<mapsto> Doc (JArr [to_dict (Task (JStr ''a'') (JStr '''') (JStr ''high'') (JStr ''2025-04-30''))])],
          write_refused = [''tasks.json'' \<mapsto> NoPermission], writes = []\<rparr>)"
    by (simp add: update_task_def save_tasks_to_json_def open_w_def refusal_of_def Let_def)
  show "delete_task 0
       \<lparr>json_file = ''tasks.json'',
        tasks = [Task (JStr ''a'') (JStr '''') (JStr ''high'') (JStr ''2025-04-30'')],
        disk = [''tasks.json'' \<mapsto> Doc (JArr [to_dict (Task (JStr ''a'') (JStr '''') (JStr ''high'') (JStr ''2025-04-30''))])],
        write_refused = [''tasks.json'' \<mapsto> NoPermission], writes = []\<rparr>
     = (Inl PermissionError, \<lparr>json_file = ''tasks.json'',
          tasks = [],
          disk = [''tasks.json'' \<mapsto> Doc (JArr [to_dict (Task (JStr ''a'') (JStr '''') (JStr ''high'') (JStr ''2025-04-30''))])],
          write_refused = [''tasks.json'' \<mapsto> NoPermission], writes = []\<rparr>)"
    by (simp add: delete_task_def del_item_def save_tasks_to_json_def open_w_def
        refusal_of_def Let_def)
qed

text \<open>
  C6, amended. With an index outside \<open>[0, length)\<close>, negative ones and the length itself
  included, \<open>update_task\<close> and \<open>delete_task\<close> return False without raising and leave the
  store as it was: same tasks, same file system, nothing written. With an index inside,
  they replace (remove) the task at that index and no other in memory, and then save.
  When the backing file can be written they return True and the file holds the new
  sequence. When it cannot, the error of the save reaches the caller, and the sequence
  in memory is already the changed one.
\<close>

theorem update_delete_bounds:
  "(index < 0 \<or> int (length (tasks s)) \<le> index \<longrightarrow>
      update_task index n d p dd s = (Inr False, s) \<and> delete_task index s = (Inr False, s))
   \<and> (0 \<le> index \<and> index < int (length (tasks s)) \<longrightarrow>
        tasks (snd (update_task index n d p dd s)) = (tasks s)[nat index := Task n d p dd]
      \<and> tasks (snd (delete_task index s))
          = take (nat index) (tasks s) @ drop (nat index + 1) (tasks s)
      \<and> (refusal_of (json_file s) s = None \<longrightarrow>
            fst (update_task index n d p dd s) = Inr True
          \<and> disk (snd (update_task index n d p dd s)) (json_file s)
              = Some (Doc (JArr (map to_dict ((tasks s)[nat index := Task n d p dd]))))
          \<and> fst (delete_task index s) = Inr True
          \<and> disk (snd (delete_task index s)) (json_file s)
              = Some (Doc (JArr (map to_dict
                   (take (nat index) (tasks s) @ drop (nat index + 1) (tasks s))))))
      \<and> (\<forall>r. refusal_of (json_file s) s = Some r \<longrightarrow>
            fst (update_task index n d p dd s) = Inl (refusal_error r)
          \<and> fst (delete_task index s) = Inl (refusal_error r)))"
proof (intro conjI impI allI)
  assume "index < 0 \<or> int (length (tasks s)) \<le> index"
  then show "update_task index n d p dd s = (Inr False, s)"
    and "delete_task index s = (Inr False, s)"
    by (auto simp add: update_task_def delete_task_def)
next
  assume b: "0 \<le> index \<and> index < int (length (tasks s))"
  note u = update_task_in_range [of index s n d p dd] delete_task_in_range [of index s]
  show "tasks (snd (update_task index n d p dd s)) = (tasks s)[nat index := Task n d p dd]"
    using b by (simp add: update_task_saves save_keeps_memory)
  show "tasks (snd (delete_task index s))
          = take (nat index) (tasks s) @ drop (nat index + 1) (tasks s)"
    using b by (simp add: delete_task_saves save_keeps_memory del_item_def)
  {
    assume w: "refusal_of (json_file s) s = None"
    show "fst (update_task index n d p dd s) = Inr True"
      using b w by (simp add: u save_ok)
    show "disk (snd (update_task index n d p dd s)) (json_file s)
              = Some (Doc (JArr (map to_dict ((tasks s)[nat index := Task n d p dd]))))"
      using b w by (simp add: u save_ok)
    show "fst (delete_task index s) = Inr True"
      using b w by (simp add: u save_ok)
    show "disk (snd (delete_task index s)) (json_file s)
              = Some (Doc (JArr (map to_dict
                   (take (nat index) (tasks s) @ drop (nat index + 1) (tasks s)))))"
      using b w by (simp add: u save_ok del_item_def)
  }
  {
    fix r assume w: "refusal_of (json_file s) s = Some r"
    show "fst (update_task index n d p dd s) = Inl (refusal_error r)"
      using b w by (simp add: u save_refused)
    show "fst (delete_task index s) = Inl (refusal_error r)"
      using b w by (simp add: u save_refused)
  }
qed

theorem update_delete_bounds_witness:
  "update_task (- 1) (JStr ''x'') (JStr '''') (JStr ''low'') (JStr ''2025-01-01'')
     \<lparr>json_file = ''tasks.json'',
      tasks = [Task (JStr ''a'') (JStr '''') (JStr ''high'') (JStr ''2025-04-30'')],
      disk = Map.empty, write_refused = Map.empty, writes = []\<rparr>
   = (Inr False, \<lparr>json_file = ''tasks.json'',
      tasks = [Task (JStr ''a'') (JStr '''') (JStr ''high'') (JStr ''2025-04-30'')],
      disk = Map.empty, write_refused = Map.empty, writes = []\<rparr>)
   \<and> delete_task 1
     \<lparr>json_file = ''tasks.json'',
      tasks = [Task (JStr ''a'') (JStr '''') (JStr ''high'') (JStr ''2025-04-30'')],
      disk = Map.empty, write_refused = Map.empty, writes = []\<rparr>
   = (Inr False, \<lparr>json_file = ''tasks.json'',
      tasks = [Task (JStr ''a'') (JStr '''') (JStr ''high'') (JStr ''2025-04-30'')],
      disk = Map.empty, write_refused = Map.empty, writes = []\<rparr>)
   \<and> tasks (snd (delete_task 0
     \<lparr>json_file = ''tasks.json'',
      tasks = [Task (JStr ''a'') (JStr '''') (JStr ''high'') (JStr ''2025-04-30'')],
      disk = Map.empty, write_refused = Map.empty, writes = []\<rparr>)) = []
   \<and> fst (delete_task 0
     \<lparr>json_file = ''tasks.json'',
      tasks = [Task (JStr ''a'') (JStr '''') (JStr ''high'') (JStr ''2025-04-30'')],
      disk = Map.empty, write_refused = Map.empty, writes = []\<rparr>) = Inr True
   \<and> fst (update_task 0 (JStr ''x'') (JStr '''') (JStr ''low'') (JStr ''2025-01-01'')
     \<lparr>json_file = ''tasks.json'',
      tasks = [Task (JStr ''a'') (JStr '''') (JStr ''high'') (JStr ''2025-04-30'')],
      disk = Map.empty, write_refused = [''tasks.json'' \<mapsto> DiskFull], writes = []\<rparr>)
     = Inl OSError
   \<and> fst (update_task 0 (JStr ''x'') (JStr '''') (JStr ''low'') (JStr ''2025-01-01'')
     \<lparr>json_file = '''',
      tasks = [Task (JStr ''a'') (JStr '''') (JStr ''high'') (JStr ''2025-04-30'')],
      disk = Map.empty, write_refused = Map.empty, writes = []\<rparr>)
     = Inl FileNotFoundError"
proof -
  let ?nopath = "\<lparr>json_file = '''',
      tasks = [Task (JStr ''a'') (JStr '''') (JStr ''high'') (JStr ''2025-04-30'')],
      disk = Map.empty, write_refused = Map.empty, writes = []\<rparr>"
  note unnamed = update_delete_bounds [of 0 ?nopath
      "JStr ''x''" "JStr ''''" "JStr ''low''" "JStr ''2025-01-01''"]
  have empty_path: "fst (update_task 0 (JStr ''x'') (JStr '''') (JStr ''low'') (JStr ''2025-01-01'') ?nopath)
      = Inl FileNotFoundError"
    using unnamed by (simp add: refusal_error_def refusal_of_def)
  let ?ok = "\<lparr>json_file = ''tasks.json'',
      tasks = [Task (JStr ''a'') (JStr '''') (JStr ''high'') (JStr ''2025-04-30'')],
      disk = Map.empty, write_refused = Map.empty, writes = []\<rparr>"
  let ?full = "\<lparr>json_file = ''tasks.json'',
      tasks = [Task (JStr ''a'') (JStr '''') (JStr ''high'') (JStr ''2025-04-30'')],
      disk = Map.empty, write_refused = [''tasks.json'' \<mapsto> DiskFull], writes = []\<rparr>"
  note below = update_delete_bounds [of "- 1" ?ok
      "JStr ''x''" "JStr ''''" "JStr ''low''" "JStr ''2025-01-01''"]
  note above = update_delete_bounds [of 1 ?ok
      "JStr ''x''" "JStr ''''" "JStr ''low''" "JStr ''2025-01-01''"]
  note inside = update_delete_bounds [of 0 ?ok
      "JStr ''x''" "JStr ''''" "JStr ''low''" "JStr ''2025-01-01''"]
  note failing = update_delete_bounds [of 0 ?full
      "JStr ''x''" "JStr ''''" "JStr ''low''" "JStr ''2025-01-01''"]
  have "update_task (- 1) (JStr ''x'') (JStr '''') (JStr ''low'') (JStr ''2025-01-01'') ?ok
      = (Inr False, ?ok)"
    using below by simp
  moreover have "delete_task 1 ?ok = (Inr False, ?ok)"
    using above by simp
  moreover have "tasks (snd (delete_task 0 ?ok)) = []" "fst (delete_task 0 ?ok) = Inr True"
    using inside by (simp_all add: refusal_of_def)
  moreover have "fst (update_task 0 (JStr ''x'') (JStr '''') (JStr ''low'') (JStr ''2025-01-01'') ?full)
      = Inl OSError"
    using failing by (simp add: refusal_error_def refusal_of_def)
  ultimately show ?thesis
    using empty_path by blast
qed

section \<open>What writes the backing file\<close>

lemma sort_tasks_frame:
  "writes (snd (sort_tasks k r s)) = writes s \<and> disk (snd (sort_tasks k r s)) = disk s"
  by (simp add: sort_tasks_def Let_def split: sum.splits)

lemma get_filtered_tasks_frame: "snd (get_filtered_tasks nf pf df s) = s"
  by (simp add: get_filtered_tasks_def Let_def)

lemma load_tasks_frame:
  "writes (snd (load_tasks_from_json s)) = writes s
   \<and> disk (snd (load_tasks_from_json s)) = disk s"
  by (simp add: load_tasks_from_json_def split: sum.splits error.splits)

text \<open>
  C10. \<open>sort_tasks\<close> reorders the sequence in memory only: for every store, key and
  direction it writes nothing and leaves the file system as it was. Neither do
  \<open>get_filtered_tasks\<close> and loading write; \<open>add_task\<close>, and \<open>update_task\<close> and
  \<open>delete_task\<close> on an index in range, do save: the state they leave is the one that
  \<open>save_tasks_to_json\<close> leaves on the changed sequence, which on a file that can be
  written has the two writes of a save more. So after a sort the file can hold the
  records in another order than the memory does: it does after adding \<open>b\<close>, then \<open>a\<close>, and
  sorting by name.
\<close>

theorem sort_never_persists:
  "writes (snd (sort_tasks k r s)) = writes s
   \<and> disk (snd (sort_tasks k r s)) = disk s
   \<and> writes (snd (get_filtered_tasks nf pf df s)) = writes s
   \<and> writes (snd (load_tasks_from_json s)) = writes s
   \<and> snd (add_task n d p dd s)
       = snd (save_tasks_to_json (s\<lparr>tasks := tasks s @ [Task n d p dd]\<rparr>))
   \<and> (refusal_of (json_file s) s = None \<longrightarrow>
        writes (snd (add_task n d p dd s))
          = writes s @ [Truncate (json_file s),
                        Dump (json_file s) (JArr (map to_dict (tasks s @ [Task n d p dd])))])
   \<and> (0 \<le> i \<and> i < int (length (tasks s)) \<longrightarrow>
        snd (update_task i n d p dd s)
          = snd (save_tasks_to_json (s\<lparr>tasks := (tasks s)[nat i := Task n d p dd]\<rparr>))
      \<and> snd (delete_task i s)
          = snd (save_tasks_to_json (s\<lparr>tasks := del_item (tasks s) (nat i)\<rparr>))
      \<and> (refusal_of (json_file s) s = None \<longrightarrow>
            writes (snd (update_task i n d p dd s))
              = writes s @ [Truncate (json_file s),
                    Dump (json_file s) (JArr (map to_dict ((tasks s)[nat i := Task n d p dd])))]
          \<and> writes (snd (delete_task i s))
              = writes s @ [Truncate (json_file s),
                    Dump (json_file s) (JArr (map to_dict (del_item (tasks s) (nat i))))]))
   \<and> (let s0 = \<lparr>json_file = ''tasks.json'', tasks = [], disk = Map.empty,
                  write_refused = Map.empty, writes = []\<rparr>;
           s1 = snd (add_task (JStr ''b'') (JStr '''') (JStr ''low'') (JStr ''2025-01-02'') s0);
           s2 = snd (add_task (JStr ''a'') (JStr '''') (JStr ''low'') (JStr ''2025-01-01'') s1);
           s3 = snd (sort_tasks ''name'' False s2)
       in disk s2 ''tasks.json'' = Some (Doc (JArr (map to_dict (tasks s2))))
          \<and> disk s3 ''tasks.json'' = Some (Doc (JArr (map to_dict (rev (tasks s3)))))
          \<and> disk s3 ''tasks.json'' \<noteq> Some (Doc (JArr (map to_dict (tasks s3)))))"
proof (intro conjI)
  show "writes (snd (sort_tasks k r s)) = writes s"
    by (simp add: sort_tasks_frame)
  show "disk (snd (sort_tasks k r s)) = disk s"
    by (simp add: sort_tasks_frame)
  show "writes (snd (get_filtered_tasks nf pf df s)) = writes s"
    by (simp add: get_filtered_tasks_frame)
  show "writes (snd (load_tasks_from_json s)) = writes s"
    by (simp add: load_tasks_frame)
  show "snd (add_task n d p dd s)
       = snd (save_tasks_to_json (s\<lparr>tasks := tasks s @ [Task n d p dd]\<rparr>))"
    by (rule add_task_saves)
  show "refusal_of (json_file s) s = None \<longrightarrow>
        writes (snd (add_task n d p dd s))
          = writes s @ [Truncate (json_file s),
                        Dump (json_file s) (JArr (map to_dict (tasks s @ [Task n d p dd])))]"
    by (simp add: add_task_saves save_ok)
  show "0 \<le> i \<and> i < int (length (tasks s)) \<longrightarrow>
        snd (update_task i n d p dd s)
          = snd (save_tasks_to_json (s\<lparr>tasks := (tasks s)[nat i := Task n d p dd]\<rparr>))
      \<and> snd (delete_task i s)
          = snd (save_tasks_to_json (s\<lparr>tasks := del_item (tasks s) (nat i)\<rparr>))
      \<and> (refusal_of (json_file s) s = None \<longrightarrow>
            writes (snd (update_task i n d p dd s))
              = writes s @ [Truncate (json_file s),
                    Dump (json_file s) (JArr (map to_dict ((tasks s)[nat i := Task n d p dd])))]
          \<and> writes (snd (delete_task i s))
              = writes s @ [Truncate (json_file s),
                    Dump (json_file s) (JArr (map to_dict (del_item (tasks s) (nat i))))])"
    by (simp add: update_task_saves delete_task_saves save_ok)
  show "let s0 = \<lparr>json_file = ''tasks.json'', tasks = [], disk = Map.empty,
                  write_refused = Map.empty, writes = []\<rparr>;
           s1 = snd (add_task (JStr ''b'') (JStr '''') (JStr ''low'') (JStr ''2025-01-02'') s0);
           s2 = snd (add_task (JStr ''a'') (JStr '''') (JStr ''low'') (JStr ''2025-01-01'') s1);
           s3 = snd (sort_tasks ''name'' False s2)
       in disk s2 ''tasks.json'' = Some (Doc (JArr (map to_dict (tasks s2))))
          \<and> disk s3 ''tasks.json'' = Some (Doc (JArr (map to_dict (rev (tasks s3)))))
          \<and> disk s3 ''tasks.json'' \<noteq> Some (Doc (JArr (map to_dict (tasks s3))))"
    by (simp add: add_task_saves save_ok refusal_of_def Let_def sort_tasks_def py_sort_def
        bind_e_def Task_def to_dict_def lower_def lower_char_def code_def)
qed

theorem sort_never_persists_witness:
  "writes (snd (update_task 0 (JStr ''x'') (JStr '''') (JStr ''low'') (JStr ''2025-01-01'')
     \<lparr>json_file = ''tasks.json'',
      tasks = [Task (JStr ''a'') (JStr '''') (JStr ''high'') (JStr ''2025-04-30'')],
      disk = Map.empty, write_refused = Map.empty, writes = []\<rparr>))
   = [Truncate ''tasks.json'',
      Dump ''tasks.json''
        (JArr [to_dict (Task (JStr ''x'') (JStr '''') (JStr ''low'') (JStr ''2025-01-01''))])]
   \<and> writes (snd (sort_tasks ''priority'' True
     \<lparr>json_file = ''tasks.json'',
      tasks = [Task (JStr ''a'') (JStr '''') (JStr ''high'') (JStr ''2025-04-30'')],
      disk = Map.empty, write_refused = Map.empty, writes = []\<rparr>)) = []"
proof -
  let ?s = "\<lparr>json_file = ''tasks.json'',
        tasks = [Task (JStr ''a'') (JStr '''') (JStr ''high'') (JStr ''2025-04-30'')],
        disk = Map.empty, write_refused = Map.empty, writes = []\<rparr>"
  note t = sort_never_persists [of "''priority''" True ?s
      None None None "JStr ''x''" "JStr ''''" "JStr ''low''" "JStr ''2025-01-01''" 0]
  have inside: "0 \<le> (0::int) \<and> (0::int) < int (length (tasks ?s))"
    and free: "refusal_of (json_file ?s) ?s = None"
    by (simp_all add: refusal_of_def)
  from t have "writes (snd (sort_tasks ''priority'' True ?s)) = writes ?s"
    by blast
  then have sorted: "writes (snd (sort_tasks ''priority'' True ?s)) = []"
    by simp
  from t inside free
  have "writes (snd (update_task 0 (JStr ''x'') (JStr '''') (JStr ''low'') (JStr ''2025-01-01'') ?s))
      = writes ?s @ [Truncate (json_file ?s),
            Dump (json_file ?s) (JArr (map to_dict ((tasks ?s)
              [nat 0 := Task (JStr ''x'') (JStr '''') (JStr ''low'') (JStr ''2025-01-01'')])))]"
    by blast
  then have "writes (snd (update_task 0 (JStr ''x'') (JStr '''') (JStr ''low'') (JStr ''2025-01-01'') ?s))
      = [Truncate ''tasks.json'',
         Dump ''tasks.json''
           (JArr [to_dict (Task (JStr ''x'') (JStr '''') (JStr ''low'') (JStr ''2025-01-01''))])]"
    by simp
  with sorted show ?thesis
    by blast
qed

section \<open>How a save reaches the file\<close>

lemma save_steps_refused:
  assumes "refusal_of (json_file s) s = Some r"
  shows "save_steps s =
     (if r = DiskFull
      then [s\<lparr>disk := (disk s)(json_file s \<mapsto> Truncated),
              writes := writes s @ [Truncate (json_file s)]\<rparr>]
      else [])"
  using assms by (cases r) (simp_all add: save_steps_def open_w_def json_dump_def Let_def)

text \<open>
  C2, as stated, fails: \<open>save_tasks_to_json\<close> opens the target itself for writing, so a
  reader between the two writes finds the target empty, which is neither the old
  document nor the new one.
\<close>

theorem save_not_atomic_counterexample:
  "\<not> atomic_save
       \<lparr>json_file = ''tasks.json'',
        tasks = [Task (JStr ''Report'') (JStr '''') (JStr ''high'') (JStr ''2025-04-30'')],
        disk = [''tasks.json'' \<mapsto> Doc (JArr [])], write_refused = Map.empty, writes = []\<rparr>
   \<and> disk (hd (save_steps
       \<lparr>json_file = ''tasks.json'',
        tasks = [Task (JStr ''Report'') (JStr '''') (JStr ''high'') (JStr ''2025-04-30'')],
        disk = [''tasks.json'' \<mapsto> Doc (JArr [])], write_refused = Map.empty,
        writes = []\<rparr>)) ''tasks.json''
     = Some Truncated"
  by (simp add: atomic_save_def save_steps_ok refusal_of_def)

text \<open>
  C2, amended. A save to a file that can be written makes exactly two writes, both to
  the target path: it empties the target and then writes the serialized sequence into
  it. It writes no temporary path and renames nothing; no other path changes at any
  moment, and the tasks in memory are untouched. When the save returns, the target
  holds the complete serialized sequence; between the two writes it is empty.
\<close>

theorem save_overwrites_in_place:
  "(refusal_of (json_file s) s = None \<longrightarrow>
      fst (save_tasks_to_json s) = Inr ()
    \<and> writes (snd (save_tasks_to_json s))
        = writes s @ [Truncate (json_file s), Dump (json_file s) (JArr (map to_dict (tasks s)))]
    \<and> disk (snd (save_tasks_to_json s))
        = (disk s)(json_file s \<mapsto> Doc (JArr (map to_dict (tasks s))))
    \<and> length (save_steps s) = 2
    \<and> disk (hd (save_steps s)) (json_file s) = Some Truncated)
   \<and> tasks (snd (save_tasks_to_json s)) = tasks s
   \<and> json_file (snd (save_tasks_to_json s)) = json_file s
   \<and> (fst (save_tasks_to_json s) = Inr () \<longrightarrow>
        disk (snd (save_tasks_to_json s)) (json_file s)
          = Some (Doc (JArr (map to_dict (tasks s)))))
   \<and> (\<forall>p. p \<noteq> json_file s \<longrightarrow>
        list_all (\<lambda>st. disk st p = disk s p) (save_steps s)
      \<and> disk (snd (save_tasks_to_json s)) p = disk s p)"
proof (cases "refusal_of (json_file s) s")
  case None
  then show ?thesis
    by (simp add: save_ok save_steps_ok)
next
  case (Some r)
  then show ?thesis
    by (simp add: save_refused save_steps_refused)
qed

theorem save_overwrites_in_place_witness:
  "''other.json'' \<noteq> ''tasks.json''
   \<and> list_all (\<lambda>st. disk st ''other.json'' = Some Invalid)
       (save_steps \<lparr>json_file = ''tasks.json'',
          tasks = [Task (JStr ''Report'') (JStr '''') (JStr ''high'') (JStr ''2025-04-30'')],
          disk = [''other.json'' \<mapsto> Invalid], write_refused = Map.empty, writes = []\<rparr>)
   \<and> writes (snd (save_tasks_to_json \<lparr>json_file = ''tasks.json'',
          tasks = [Task (JStr ''Report'') (JStr '''') (JStr ''high'') (JStr ''2025-04-30'')],
          disk = [''other.json'' \<mapsto> Invalid], write_refused = Map.empty, writes = []\<rparr>))
     = [Truncate ''tasks.json'',
        Dump ''tasks.json''
          (JArr [to_dict (Task (JStr ''Report'') (JStr '''') (JStr ''high'') (JStr ''2025-04-30''))])]"
proof -
  let ?s = "\<lparr>json_file = ''tasks.json'',
        tasks = [Task (JStr ''Report'') (JStr '''') (JStr ''high'') (JStr ''2025-04-30'')],
        disk = [''other.json'' \<mapsto> Invalid], write_refused = Map.empty, writes = []\<rparr>"
  note t = save_overwrites_in_place [of ?s]
  have ne: "''other.json'' \<noteq> ''tasks.json''"
    by simp
  have free: "refusal_of (json_file ?s) ?s = None"
    by (simp add: refusal_of_def)
  from t have "\<forall>p. p \<noteq> json_file ?s
      \<longrightarrow> list_all (\<lambda>st. disk st p = disk ?s p) (save_steps ?s)
        \<and> disk (snd (save_tasks_to_json ?s)) p = disk ?s p"
    by blast
  then have "''other.json'' \<noteq> json_file ?s
      \<longrightarrow> list_all (\<lambda>st. disk st ''other.json'' = disk ?s ''other.json'') (save_steps ?s)
        \<and> disk (snd (save_tasks_to_json ?s)) ''other.json'' = disk ?s ''other.json''"
    by (rule spec)
  with ne have others: "list_all (\<lambda>st. disk st ''other.json'' = Some Invalid) (save_steps ?s)"
    by simp
  from t free have "writes (snd (save_tasks_to_json ?s))
     = writes ?s @ [Truncate (json_file ?s), Dump (json_file ?s) (JArr (map to_dict (tasks ?s)))]"
    by blast
  then have "writes (snd (save_tasks_to_json ?s))
     = [Truncate ''tasks.json'',
        Dump ''tasks.json''
          (JArr [to_dict (Task (JStr ''Report'') (JStr '''') (JStr ''high'') (JStr ''2025-04-30''))])]"
    by simp
  with ne others show ?thesis
    by blast
qed

section \<open>Properties of loading\<close>

lemma init_absent:
  "d f = None \<Longrightarrow>
     init f d w
       = (Inr (), \<lparr>json_file = f, tasks = [], disk = d, write_refused = w, writes = []\<rparr>)"
  by (simp add: init_def load_tasks_from_json_def open_r_def bind_e_def)

lemma init_not_json:
  "d f = Some Invalid \<or> d f = Some Truncated \<Longrightarrow>
     init f d w
       = (Inr (), \<lparr>json_file = f, tasks = [], disk = d, write_refused = w, writes = []\<rparr>)"
  by (auto simp add: init_def load_tasks_from_json_def open_r_def json_load_def bind_e_def)

lemma init_unreadable_text:
  "f \<noteq> [] \<Longrightarrow> d f = Some Undecodable \<Longrightarrow> fst (init f d w) = Inl UnicodeDecodeError"
  "f \<noteq> [] \<Longrightarrow> d f = Some Oversized \<Longrightarrow> fst (init f d w) = Inl ValueError"
  by (simp_all add: init_def load_tasks_from_json_def open_r_def json_load_def bind_e_def)

lemma init_well_formed:
  "f \<noteq> [] \<Longrightarrow> d f = Some (Doc (JArr (map to_dict ts))) \<Longrightarrow>
     init f d w
       = (Inr (), \<lparr>json_file = f, tasks = ts, disk = d, write_refused = w, writes = []\<rparr>)"
  by (simp add: init_def load_tasks_from_json_def open_r_def json_load_def bind_e_def
      map_e_from_dict_to_dict)

text \<open>
  C1 holds for an absent file, for a file whose text is not JSON, and for a well-formed
  file (lemmas \<open>init_absent\<close>, \<open>init_not_json\<close>, \<open>init_well_formed\<close>). It fails on a file
  that is valid JSON but no sequence of four-key records: the two handlers of
  \<open>load_tasks_from_json\<close> catch FileNotFoundError and JSONDecodeError only. A record with
  a key missing raises KeyError out of the constructor, a document that is a number
  raises TypeError, and a record whose four values are not strings is loaded as it is.
\<close>

theorem load_malformed_records_raises:
  "fst (init ''tasks.json'' [''tasks.json'' \<mapsto> Doc (JArr [JObj [(''name'', JStr ''a'')]])]
          Map.empty)
     = Inl KeyError
   \<and> fst (init ''tasks.json'' [''tasks.json'' \<mapsto> Doc (JInt 5)] Map.empty) = Inl TypeError
   \<and> fst (init ''tasks.json'' [''tasks.json'' \<mapsto> Doc (JArr [JStr ''abc''])] Map.empty)
     = Inl TypeError
   \<and> init ''tasks.json'' [''tasks.json'' \<mapsto> Doc (JArr [JObj
         [(''name'', JInt 1), (''description'', JNull), (''priority'', JInt 3),
          (''due_date'', JBool True)]])] Map.empty
     = (Inr (), \<lparr>json_file = ''tasks.json'',
          tasks = [Task (JInt 1) JNull (JInt 3) (JBool True)],
          disk = [''tasks.json'' \<mapsto> Doc (JArr [JObj
            [(''name'', JInt 1), (''description'', JNull), (''priority'', JInt 3),
             (''due_date'', JBool True)]])],
          write_refused = Map.empty, writes = []\<rparr>)"
  by (simp add: init_def load_tasks_from_json_def open_r_def json_load_def bind_e_def
      from_dict_def)

section \<open>Properties of filtering\<close>

lemma map_e_total: "(\<And>x. x \<in> set xs \<Longrightarrow> f x = Inr (g x)) \<Longrightarrow> map_e f xs = Inr (map g xs)"
  by (induction xs) (simp_all add: bind_e_def)

lemma filter_e_total:
  "(\<And>x. x \<in> set xs \<Longrightarrow> p x = Inr (q x)) \<Longrightarrow> filter_e p xs = Inr (filter q xs)"
  by (induction xs) (simp_all add: bind_e_def)

lemma strip_empty_iff: "strip s = [] \<longleftrightarrow> blank s"
proof -
  have "dropWhile is_space (rev (dropWhile is_space s)) = [] \<longleftrightarrow> dropWhile is_space s = []"
  proof (cases "dropWhile is_space s")
    case Nil
    show ?thesis unfolding Nil by simp
  next
    case (Cons c cs)
    then have "\<not> is_space c"
      by (metis hd_dropWhile list.distinct(1) list.sel(1))
    moreover have "c \<in> set (rev (c # cs))"
      by simp
    ultimately have "dropWhile is_space (rev (c # cs)) \<noteq> []"
      unfolding dropWhile_eq_Nil_conv by blast
    with Cons show ?thesis by simp
  qed
  then have "strip s = [] \<longleftrightarrow> dropWhile is_space s = []"
    by (simp add: strip_def)
  also have "\<dots> \<longleftrightarrow> blank s"
    by (simp add: dropWhile_eq_Nil_conv blank_def list_all_iff)
  finally show ?thesis .
qed

lemma blank_Nil: "blank []"
  by (simp add: blank_def)

lemma str_in_sublist: "str_in a b \<longleftrightarrow> sublist a b"
  by (induction b) (simp_all add: sublist_Cons_right)

lemma str_task_fields:
  "str_task t \<Longrightarrow> \<exists>n d p dd. name t = JStr n \<and> description t = JStr d \<and> priority t = JStr p \<and> due_date t = JStr dd"
  unfolding str_task_def
  by (cases "name t"; cases "description t"; cases "priority t"; cases "due_date t") simp_all

lemma name_stage:
  assumes "list_all str_task ts"
  shows "filter_e (\<lambda>t. bind_e (str_lower (name t)) (\<lambda>n. Inr (str_in (lower f) n))) ts
         = Inr (filter (\<lambda>t. \<exists>n. name t = JStr n \<and> sublist (lower f) (lower n)) ts)"
proof (rule filter_e_total)
  fix t assume "t \<in> set ts"
  with assms have "str_task t" by (simp add: list_all_iff)
  then obtain n where "name t = JStr n" using str_task_fields by blast
  then show "bind_e (str_lower (name t)) (\<lambda>n. Inr (str_in (lower f) n))
      = Inr (\<exists>n. name t = JStr n \<and> sublist (lower f) (lower n))"
    by (simp add: bind_e_def str_in_sublist)
qed

lemma priority_stage:
  assumes "list_all str_task ts"
  shows "filter_e (\<lambda>t. bind_e (str_lower (priority t)) (\<lambda>p. Inr (p = lower f))) ts
         = Inr (filter (\<lambda>t. \<exists>p. priority t = JStr p \<and> lower p = lower f) ts)"
proof (rule filter_e_total)
  fix t assume "t \<in> set ts"
  with assms have "str_task t" by (simp add: list_all_iff)
  then obtain p where "priority t = JStr p" using str_task_fields by blast
  then show "bind_e (str_lower (priority t)) (\<lambda>p. Inr (p = lower f))
      = Inr (\<exists>p. priority t = JStr p \<and> lower p = lower f)"
    by (simp add: bind_e_def)
qed

lemma date_stage:
  "filter_e (\<lambda>t. Inr (due_date t = JStr f)) ts = Inr (filter (\<lambda>t. due_date t = JStr f) ts)"
  by (rule filter_e_total) simp

lemma list_all_filter: "list_all P xs \<Longrightarrow> list_all P (filter Q xs)"
  by (simp add: list_all_iff)

lemma bind_e_Inr: "bind_e (Inr x) f = f x"
  by (simp add: bind_e_def)

text \<open>
  C3. For every store whose tasks hold strings and every combination of the three
  optional filters, \<open>get_filtered_tasks\<close> raises nothing, returns exactly the tasks that
  satisfy all supplied filters, in store order, and leaves the store as it was.
\<close>

theorem filter_correct:
  assumes "list_all str_task (tasks s)"
  shows "get_filtered_tasks nf pf df s = (Inr (filter (filter_spec nf pf df) (tasks s)), s)"
proof -
  define q1 where "q1 = (\<lambda>t::task. case nf of None \<Rightarrow> True
       | Some f \<Rightarrow> blank f \<or> (\<exists>n. name t = JStr n \<and> sublist (lower f) (lower n)))"
  define q2 where "q2 = (\<lambda>t::task. case pf of None \<Rightarrow> True
       | Some f \<Rightarrow> blank f \<or> lower f = ''all'' \<or> (\<exists>p. priority t = JStr p \<and> lower p = lower f))"
  define q3 where "q3 = (\<lambda>t::task. case df of None \<Rightarrow> True | Some f \<Rightarrow> blank f \<or> due_date t = JStr f)"
  define r1 where "r1 = (case nf of
               Some nf \<Rightarrow>
                 if nf \<noteq> [] \<and> strip nf \<noteq> []
                 then bind_e (Inr (tasks s))
                        (filter_e (\<lambda>t. bind_e (str_lower (name t)) (\<lambda>n. Inr (str_in (lower nf) n))))
                 else Inr (tasks s)
             | None \<Rightarrow> Inr (tasks s))"
  have s1: "r1 = Inr (filter q1 (tasks s))"
    using assms
    by (cases nf) (auto simp add: r1_def q1_def strip_empty_iff blank_Nil bind_e_Inr name_stage)
  define r2 where "r2 = (case pf of
               Some pf \<Rightarrow>
                 if pf \<noteq> [] \<and> strip pf \<noteq> [] \<and> lower pf \<noteq> ''all''
                 then bind_e r1
                        (filter_e (\<lambda>t. bind_e (str_lower (priority t)) (\<lambda>p. Inr (p = lower pf))))
                 else r1
             | None \<Rightarrow> r1)"
  have a1: "list_all str_task (filter q1 (tasks s))"
    using assms by (rule list_all_filter)
  have s2: "r2 = Inr (filter q2 (filter q1 (tasks s)))"
    using a1
    by (cases pf) (auto simp add: r2_def s1 q2_def strip_empty_iff blank_Nil bind_e_Inr priority_stage)
  define r3 where "r3 = (case df of
               Some df \<Rightarrow>
                 if df \<noteq> [] \<and> strip df \<noteq> []
                 then bind_e r2 (filter_e (\<lambda>t. Inr (due_date t = JStr df)))
                 else r2
             | None \<Rightarrow> r2)"
  have s3: "r3 = Inr (filter q3 (filter q2 (filter q1 (tasks s))))"
    by (cases df) (auto simp add: r3_def s2 q3_def strip_empty_iff blank_Nil bind_e_Inr date_stage)
  have "get_filtered_tasks nf pf df s = (r3, s)"
    unfolding get_filtered_tasks_def Let_def r3_def r2_def r1_def by (rule refl)
  moreover have "filter q3 (filter q2 (filter q1 (tasks s))) = filter (filter_spec nf pf df) (tasks s)"
    by (auto simp add: filter_spec_def q1_def q2_def q3_def intro: filter_cong)
  ultimately show ?thesis
    by (simp add: s3)
qed

lemma lower_examples:
  "lower ''REP'' = ''rep''"
  "lower ''All'' = ''all''"
  "lower ''Call'' = ''call''"
  "lower ''Quarterly Report'' = ''quarterly report''"
  by code_simp+

theorem filter_correct_witness:
  "list_all str_task
     [Task (JStr ''Quarterly Report'') (JStr '''') (JStr ''High'') (JStr ''2025-04-30''),
      Task (JStr ''Call'') (JStr '''') (JStr ''low'') (JStr ''2025-04-30'')]
   \<and> get_filtered_tasks (Some ''REP'') (Some ''All'') (Some '' '')
       \<lparr>json_file = ''tasks.json'',
        tasks = [Task (JStr ''Quarterly Report'') (JStr '''') (JStr ''High'') (JStr ''2025-04-30''),
                 Task (JStr ''Call'') (JStr '''') (JStr ''low'') (JStr ''2025-04-30'')],
        disk = Map.empty, write_refused = Map.empty, writes = []\<rparr>
     = (Inr [Task (JStr ''Quarterly Report'') (JStr '''') (JStr ''High'') (JStr ''2025-04-30'')],
        \<lparr>json_file = ''tasks.json'',
        tasks = [Task (JStr ''Quarterly Report'') (JStr '''') (JStr ''High'') (JStr ''2025-04-30''),
                 Task (JStr ''Call'') (JStr '''') (JStr ''low'') (JStr ''2025-04-30'')],
        disk = Map.empty, write_refused = Map.empty, writes = []\<rparr>)"
  using filter_correct [of
      "\<lparr>json_file = ''tasks.json'',
        tasks = [Task (JStr ''Quarterly Report'') (JStr '''') (JStr ''High'') (JStr ''2025-04-30''),
                 Task (JStr ''Call'') (JStr '''') (JStr ''low'') (JStr ''2025-04-30'')],
        disk = Map.empty, write_refused = Map.empty, writes = []\<rparr>" "Some ''REP''" "Some ''All''" "Some '' ''"]
    lower_examples
  by (simp add: str_task_def Task_def filter_spec_def blank_def is_space_def code_def
      str_in_sublist [symmetric])

section \<open>Properties of sorting\<close>

lemma insort_key_decorate:
  "insort_key fst (k x, x) (map (\<lambda>x. (k x, x)) ys) = map (\<lambda>x. (k x, x)) (insort_key k x ys)"
  by (induction ys) simp_all

lemma sort_key_decorate:
  "sort_key fst (map (\<lambda>x. (k x, x)) xs) = map (\<lambda>x. (k x, x)) (sort_key k xs)"
  by (induction xs) (simp_all add: insort_key_decorate)

lemma zip_decorate: "zip (map k xs) xs = map (\<lambda>x. (k x, x)) xs"
  by (induction xs) simp_all

lemma py_sort_total:
  assumes "\<And>x. x \<in> set xs \<Longrightarrow> key x = Inr (k x)"
  shows "py_sort key reverse xs = Inr (stable_sort k reverse xs)"
proof -
  have "map_e key xs = Inr (map k xs)"
    using assms by (rule map_e_total)
  moreover have "map snd (sort_key fst (map (\<lambda>x. (k x, x)) xs)) = sort_key k xs"
    by (simp add: sort_key_decorate comp_def)
  moreover have "map snd (rev (sort_key fst (rev (map (\<lambda>x. (k x, x)) xs)))) = rev (sort_key k (rev xs))"
    by (simp add: sort_key_decorate comp_def rev_map)
  ultimately show ?thesis
    by (simp add: py_sort_def bind_e_def zip_decorate stable_sort_def Let_def)
qed

lemma map_e_Inr_keys:
  "map_e f xs = Inr ys \<Longrightarrow> (\<forall>x\<in>set xs. f x = Inr (projr (f x)))"
proof (induction xs arbitrary: ys)
  case Nil
  then show ?case by simp
next
  case (Cons a xs)
  then show ?case
    by (auto simp add: bind_e_def split: sum.splits)
qed

lemma map_e_Inl_iff:
  "(\<exists>e. map_e f xs = Inl e) \<longleftrightarrow> (\<exists>x\<in>set xs. \<exists>e. f x = Inl e)"
  by (induction xs) (auto simp add: bind_e_def split: sum.splits)

lemma map_e_Inl_elem:
  "map_e f xs = Inl e \<Longrightarrow> \<exists>x\<in>set xs. f x = Inl e"
  by (induction xs) (auto simp add: bind_e_def split: sum.splits)

lemma py_sort_Inr:
  assumes "py_sort key reverse xs = Inr ys"
  shows "ys = stable_sort (\<lambda>x. projr (key x)) reverse xs"
    and "\<forall>x\<in>set xs. key x = Inr (projr (key x))"
proof -
  from assms obtain ks where ks: "map_e key xs = Inr ks"
    by (cases "map_e key xs") (simp_all add: py_sort_def bind_e_def)
  then show tot: "\<forall>x\<in>set xs. key x = Inr (projr (key x))"
    by (rule map_e_Inr_keys)
  then have "py_sort key reverse xs = Inr (stable_sort (\<lambda>x. projr (key x)) reverse xs)"
    by (intro py_sort_total) simp
  with assms show "ys = stable_sort (\<lambda>x. projr (key x)) reverse xs"
    by simp
qed

lemma py_sort_Inl:
  "(\<exists>e. py_sort key reverse xs = Inl e) \<longleftrightarrow> (\<exists>x\<in>set xs. \<exists>e. key x = Inl e)"
proof -
  have "(\<exists>e. py_sort key reverse xs = Inl e) \<longleftrightarrow> (\<exists>e. map_e key xs = Inl e)"
    by (cases "map_e key xs") (simp_all add: py_sort_def bind_e_def Let_def)
  then show ?thesis
    by (simp add: map_e_Inl_iff)
qed

lemma set_stable_sort: "set (stable_sort k r xs) = set xs"
  by (simp add: stable_sort_def)

lemma mset_stable_sort: "mset (stable_sort k r xs) = mset xs"
  by (simp add: stable_sort_def)

lemma stable_sort_idem: "stable_sort k r (stable_sort k r xs) = stable_sort k r xs"
  by (simp add: stable_sort_def sort_key_id_if_sorted)

lemma stable_sort_sorted:
  "sorted (map k (stable_sort k False xs))" "sorted (rev (map k (stable_sort k True xs)))"
  by (simp_all add: stable_sort_def rev_map [symmetric])

lemma stable_sort_stable:
  "filter (\<lambda>y. k y = v) (stable_sort k r xs) = filter (\<lambda>y. k y = v) xs"
  by (simp add: stable_sort_def sort_key_stable rev_filter [symmetric])

lemma py_sort_idem:
  assumes "py_sort key reverse xs = Inr ys"
  shows "py_sort key reverse ys = Inr ys"
proof -
  let ?k = "\<lambda>x. projr (key x)"
  from py_sort_Inr [OF assms]
  have ys: "ys = stable_sort ?k reverse xs" and tot: "\<forall>x\<in>set xs. key x = Inr (?k x)"
    by simp_all
  have "set ys = set xs"
    by (simp add: ys set_stable_sort)
  with tot have "\<And>x. x \<in> set ys \<Longrightarrow> key x = Inr (?k x)"
    by simp
  then have "py_sort key reverse ys = Inr (stable_sort ?k reverse ys)"
    by (rule py_sort_total)
  then show ?thesis
    by (simp add: ys stable_sort_idem)
qed

text \<open>
  C9. For every store, every key (the three named ones, and any other string, for
  which the sort does nothing) and both directions: when a sort succeeds, sorting again
  with the same key and direction succeeds, returns the same sequence and leaves the
  store as the first sort left it.
\<close>

theorem sort_idempotent:
  assumes "fst (sort_tasks k r s) = Inr ts"
  shows "sort_tasks k r (snd (sort_tasks k r s)) = (Inr ts, snd (sort_tasks k r s))"
proof -
  define res where "res =
        (if k = ''name''
         then py_sort (\<lambda>t. str_lower (name t)) r (tasks s)
         else if k = ''priority''
         then py_sort (\<lambda>t. priority_key (priority t)) r (tasks s)
         else if k = ''due_date''
         then py_sort (\<lambda>t. due_key (due_date t)) r (tasks s)
         else Inr (tasks s))"
  have st: "sort_tasks k r s = (case res of Inl e \<Rightarrow> (Inl e, s) | Inr ts \<Rightarrow> (Inr ts, s\<lparr>tasks := ts\<rparr>))"
    by (simp add: sort_tasks_def res_def Let_def)
  with assms have res: "res = Inr ts"
    by (cases res) simp_all
  then have after: "sort_tasks k r s = (Inr ts, s\<lparr>tasks := ts\<rparr>)"
    by (simp add: st)
  have "(if k = ''name''
         then py_sort (\<lambda>t. str_lower (name t)) r ts
         else if k = ''priority''
         then py_sort (\<lambda>t. priority_key (priority t)) r ts
         else if k = ''due_date''
         then py_sort (\<lambda>t. due_key (due_date t)) r ts
         else Inr ts) = Inr ts"
    using res by (auto simp add: res_def py_sort_idem split: if_splits)
  then have "sort_tasks k r (s\<lparr>tasks := ts\<rparr>) = (Inr ts, s\<lparr>tasks := ts\<rparr>)"
    by (auto simp add: sort_tasks_def Let_def split: if_splits)
  then show ?thesis
    by (simp add: after)
qed

lemma priority_key_rank:
  assumes "is_str (priority t)"
  shows "priority_key (priority t) = Inr (priority_rank t)"
proof -
  from assms obtain p where p: "priority t = JStr p"
    by (cases "priority t") simp_all
  show ?thesis
    by (simp add: p priority_key_def priority_rank_def priority_order_def bind_e_def)
qed

text \<open>
  C4. Sorting by priority, ascending, a store whose priorities are strings raises
  nothing and yields the same tasks ordered by rank: every high (in any case) before
  every medium, before every low, before every other value; tasks of one rank keep the
  relative order they had before the sort.
\<close>

theorem priority_sort_order:
  assumes "list_all (\<lambda>t. is_str (priority t)) (tasks s)"
  shows "let ts = tasks (snd (sort_tasks ''priority'' False s))
         in fst (sort_tasks ''priority'' False s) = Inr ts
          \<and> sorted (map priority_rank ts)
          \<and> (\<forall>i j. i < j \<and> j < length ts \<longrightarrow> priority_rank (ts ! i) \<le> priority_rank (ts ! j))
          \<and> (\<forall>v. filter (\<lambda>t. priority_rank t = v) ts = filter (\<lambda>t. priority_rank t = v) (tasks s))
          \<and> mset ts = mset (tasks s)"
proof -
  have "py_sort (\<lambda>t. priority_key (priority t)) False (tasks s)
        = Inr (stable_sort priority_rank False (tasks s))"
    using assms by (intro py_sort_total priority_key_rank) (simp add: list_all_iff)
  then have st: "sort_tasks ''priority'' False s
      = (Inr (stable_sort priority_rank False (tasks s)),
         s\<lparr>tasks := stable_sort priority_rank False (tasks s)\<rparr>)"
    by (simp add: sort_tasks_def Let_def)
  have srt: "sorted (map priority_rank (stable_sort priority_rank False (tasks s)))"
    by (rule stable_sort_sorted)
  then have "\<forall>i j. i < j \<and> j < length (stable_sort priority_rank False (tasks s)) \<longrightarrow>
      priority_rank (stable_sort priority_rank False (tasks s) ! i)
        \<le> priority_rank (stable_sort priority_rank False (tasks s) ! j)"
    by (auto simp add: sorted_iff_nth_mono_less dest: less_imp_le)
  with srt show ?thesis
    by (simp add: st Let_def stable_sort_stable mset_stable_sort)
qed

theorem sort_idempotent_witness:
  "fst (sort_tasks ''name'' False (demo_store demo_tasks))
     = Inr [demo_tasks ! 3, demo_tasks ! 2, demo_tasks ! 1, demo_tasks ! 0]
   \<and> sort_tasks ''name'' False (snd (sort_tasks ''name'' False (demo_store demo_tasks)))
     = (Inr [demo_tasks ! 3, demo_tasks ! 2, demo_tasks ! 1, demo_tasks ! 0],
        snd (sort_tasks ''name'' False (demo_store demo_tasks)))"
proof -
  have first: "fst (sort_tasks ''name'' False (demo_store demo_tasks))
     = Inr [demo_tasks ! 3, demo_tasks ! 2, demo_tasks ! 1, demo_tasks ! 0]"
    by code_simp
  from sort_idempotent [OF first] first show ?thesis
    by simp
qed

theorem priority_sort_order_witness:
  "list_all (\<lambda>t. is_str (priority t)) (tasks (demo_store demo_tasks))
   \<and> fst (sort_tasks ''priority'' False (demo_store demo_tasks))
     = Inr [demo_tasks ! 1, demo_tasks ! 3, demo_tasks ! 0, demo_tasks ! 2]
   \<and> sorted (map priority_rank (tasks (snd (sort_tasks ''priority'' False (demo_store demo_tasks)))))"
proof -
  have hyp: "list_all (\<lambda>t. is_str (priority t)) (tasks (demo_store demo_tasks))"
    by (simp add: demo_store_def demo_tasks_def Task_def)
  have res: "fst (sort_tasks ''priority'' False (demo_store demo_tasks))
     = Inr [demo_tasks ! 1, demo_tasks ! 3, demo_tasks ! 0, demo_tasks ! 2]"
    by code_simp
  from priority_sort_order [OF hyp] hyp res show ?thesis
    by (simp add: Let_def)
qed

text \<open>
  On a string of the strict form YYYY-MM-DD, \<open>strptime\<close> succeeds exactly when the
  fields name a calendar date of a year from 1 on, and then returns that date.
\<close>

lemma char_of_digits:
  "char_of (48::nat) = CHR ''0''" "char_of (49::nat) = CHR ''1''" "char_of (50::nat) = CHR ''2''"
  "char_of (51::nat) = CHR ''3''" "char_of (52::nat) = CHR ''4''" "char_of (53::nat) = CHR ''5''"
  "char_of (54::nat) = CHR ''6''" "char_of (55::nat) = CHR ''7''" "char_of (56::nat) = CHR ''8''"
  "char_of (57::nat) = CHR ''9''"
  by code_simp+

lemma digit_cases:
  assumes "is_digit c"
  shows "c = CHR ''0'' \<or> c = CHR ''1'' \<or> c = CHR ''2'' \<or> c = CHR ''3'' \<or> c = CHR ''4''
       \<or> c = CHR ''5'' \<or> c = CHR ''6'' \<or> c = CHR ''7'' \<or> c = CHR ''8'' \<or> c = CHR ''9''"
proof -
  from assms have "48 \<le> (of_char c :: nat)" "(of_char c :: nat) \<le> 57"
    by (simp_all add: is_digit_def code_def)
  then have "(of_char c :: nat) = 48 \<or> (of_char c :: nat) = 49 \<or> (of_char c :: nat) = 50
      \<or> (of_char c :: nat) = 51 \<or> (of_char c :: nat) = 52 \<or> (of_char c :: nat) = 53
      \<or> (of_char c :: nat) = 54 \<or> (of_char c :: nat) = 55 \<or> (of_char c :: nat) = 56
      \<or> (of_char c :: nat) = 57"
    by arith
  moreover have "c = char_of (of_char c :: nat)"
    by simp
  ultimately show ?thesis
    using char_of_digits by metis
qed

lemmas alt_defs = day_alts_def month_alts_def is_digit_def digit_val_def code_def

lemma day_alts_two_digits:
  assumes "is_digit d1" "is_digit d2"
  shows "case day_alts [d1, d2] of
           [] \<Rightarrow> 10 * digit_val d1 + digit_val d2 = 0
         | (d, r) # _ \<Rightarrow>
             if r = [] then d = 10 * digit_val d1 + digit_val d2 \<and> 1 \<le> d \<and> d \<le> 31
             else 31 < 10 * digit_val d1 + digit_val d2"
  using digit_cases [OF assms(1)] digit_cases [OF assms(2)]
  by (elim disjE) (simp_all add: alt_defs)


lemma month_alts_two_digits:
  assumes "is_digit m1" "is_digit m2"
  shows "concat (map (\<lambda>(m, r2).
                     case r2 of
                       dash2 # r3 \<Rightarrow>
                         if dash2 = CHR ''-'' then map (\<lambda>(d, r4). (m, d, r4)) (day_alts r3)
                         else []
                     | [] \<Rightarrow> []) (month_alts (m1 # m2 # CHR ''-'' # r)))
         = (if 1 \<le> 10 * digit_val m1 + digit_val m2 \<and> 10 * digit_val m1 + digit_val m2 \<le> 12
            then map (\<lambda>(d, r4). (10 * digit_val m1 + digit_val m2, d, r4)) (day_alts r)
            else [])"
  using digit_cases [OF assms(1)] digit_cases [OF assms(2)]
  by (elim disjE) (simp_all add: month_alts_def is_digit_def digit_val_def code_def)

lemma days_in_month_le_31:
  assumes "1 \<le> m" "m \<le> 12"
  shows "days_in_month y m \<le> 31"
proof -
  from assms have "m = 1 \<or> m = 2 \<or> m = 3 \<or> m = 4 \<or> m = 5 \<or> m = 6 \<or> m = 7 \<or> m = 8
      \<or> m = 9 \<or> m = 10 \<or> m = 11 \<or> m = 12"
    by arith
  then show ?thesis
    by (elim disjE) (simp_all add: days_in_month_def)
qed

lemma ymd_form_chars:
  assumes "ymd_form s"
  obtains y1 y2 y3 y4 m1 m2 d1 d2 where
    "s = [y1, y2, y3, y4, CHR ''-'', m1, m2, CHR ''-'', d1, d2]"
    "is_digit y1" "is_digit y2" "is_digit y3" "is_digit y4"
    "is_digit m1" "is_digit m2" "is_digit d1" "is_digit d2"
proof -
  from assms have len: "length s = 10"
    by (simp add: ymd_form_def)
  then obtain c0 c1 c2 c3 c4 c5 c6 c7 c8 c9 where s: "s = [c0, c1, c2, c3, c4, c5, c6, c7, c8, c9]"
    by (auto simp add: length_Suc_conv eval_nat_numeral)
  with assms that show thesis
    by (simp add: ymd_form_def)
qed

lemma strptime_on_ymd_form:
  assumes "ymd_form s"
  shows "strptime s =
     (let y = digits_val (take 4 s); m = digits_val (take 2 (drop 5 s)); d = digits_val (drop 8 s)
      in if 1 \<le> y \<and> 1 \<le> m \<and> m \<le> 12 \<and> 1 \<le> d \<and> d \<le> days_in_month y m
         then Inr (y, m, d) else Inl ValueError)"
proof -
  from assms obtain y1 y2 y3 y4 m1 m2 d1 d2 where
    s: "s = [y1, y2, y3, y4, CHR ''-'', m1, m2, CHR ''-'', d1, d2]"
    and dy: "is_digit y1" "is_digit y2" "is_digit y3" "is_digit y4"
    and dm: "is_digit m1" "is_digit m2" and dd: "is_digit d1" "is_digit d2"
    by (rule ymd_form_chars)
  define y where "y = digits_val [y1, y2, y3, y4]"
  define m where "m = 10 * digit_val m1 + digit_val m2"
  define d where "d = 10 * digit_val d1 + digit_val d2"
  have nu: "m1 \<noteq> CHR ''_''" "m2 \<noteq> CHR ''_''" "d1 \<noteq> CHR ''_''" "d2 \<noteq> CHR ''_''"
    using dm dd by (auto simp add: is_digit_def code_def)
  have vals: "digits_val (take 4 s) = y" "digits_val (take 2 (drop 5 s)) = m"
    "digits_val (drop 8 s) = d"
    using nu by (simp_all add: s y_def m_def d_def digits_val_def)
  have rm: "re_match s =
      (case (if 1 \<le> m \<and> m \<le> 12 then map (\<lambda>(d, r4). (m, d, r4)) (day_alts [d1, d2]) else []) of
         [] \<Rightarrow> None
       | (m, d, r4) # _ \<Rightarrow> Some ((y, m, d), r4))"
    unfolding y_def m_def using dy by (simp add: re_match_def s month_alts_two_digits [OF dm])
  note da = day_alts_two_digits [OF dd, folded d_def]
  show ?thesis
  proof (cases "1 \<le> m \<and> m \<le> 12")
    case False
    then show ?thesis
      by (auto simp add: strptime_def rm vals Let_def)
  next
    case mok: True
    then have le31: "days_in_month y m \<le> 31"
      by (simp add: days_in_month_le_31)
    show ?thesis
    proof (cases "day_alts [d1, d2]")
      case Nil
      with da mok show ?thesis
        by (simp add: strptime_def rm vals Let_def)
    next
      case (Cons a as)
      obtain dv r where a: "a = (dv, r)" by (cases a)
      with Cons da mok le31 show ?thesis
        by (auto simp add: strptime_def rm vals Let_def)
    qed
  qed
qed

lemma demo_strptime:
  "strptime ''2024-1-5'' = Inr (2024, 1, 5)"
  "strptime ''2023-12-31'' = Inr (2023, 12, 31)"
  "strptime ''2024-01-05'' = Inr (2024, 1, 5)"
  "strptime ''2024-01-04'' = Inr (2024, 1, 4)"
  "strptime ''2024-13-01'' = Inl ValueError"
  by code_simp+

text \<open>
  C5, as stated, fails: \<open>2024-1-5\<close> is not of the form YYYY-MM-DD, yet \<open>strptime\<close>
  reads it as the 5th of January 2024 and the sort succeeds.
\<close>

theorem due_date_sort_counterexample:
  "\<not> ymd_form ''2024-1-5''
   \<and> due_date (demo_tasks ! 0) = JStr ''2024-1-5''
   \<and> fst (sort_tasks ''due_date'' False (demo_store demo_tasks))
     = Inr [demo_tasks ! 1, demo_tasks ! 3, demo_tasks ! 0, demo_tasks ! 2]"
proof (intro conjI)
  show "\<not> ymd_form ''2024-1-5''"
    by (simp add: ymd_form_def)
  show "due_date (demo_tasks ! 0) = JStr ''2024-1-5''"
    by (simp add: demo_tasks_def Task_def)
  show "fst (sort_tasks ''due_date'' False (demo_store demo_tasks))
     = Inr [demo_tasks ! 1, demo_tasks ! 3, demo_tasks ! 0, demo_tasks ! 2]"
    by code_simp
qed

lemma strptime_error: "strptime d = Inl e \<Longrightarrow> e = ValueError"
  by (auto simp add: strptime_def split: option.splits prod.splits if_splits)

lemma due_key_str: "is_str v \<Longrightarrow> due_key v = Inl e \<Longrightarrow> e = ValueError"
  by (cases v) (auto dest: strptime_error)

text \<open>
  C5, amended. Sorting by due date a store whose due dates are strings raises
  ValueError, and leaves the store as it was, exactly when \<open>strptime\<close> with the format
  \<open>%Y-%m-%d\<close> rejects the due date of some task; nothing catches the error. When it
  accepts every due date the sort succeeds and orders the same tasks by the calendar
  order of the parsed dates (descending with \<open>reverse\<close>), tasks of one date keeping their
  relative order.
\<close>

theorem due_date_sort:
  assumes "list_all (\<lambda>t. is_str (due_date t)) (tasks s)"
  shows "(if list_all accepted (tasks s)
          then let ts = tasks (snd (sort_tasks ''due_date'' r s))
               in fst (sort_tasks ''due_date'' r s) = Inr ts
                \<and> (if r then sorted (rev (map parsed_date ts)) else sorted (map parsed_date ts))
                \<and> (\<forall>v. filter (\<lambda>t. parsed_date t = v) ts
                        = filter (\<lambda>t. parsed_date t = v) (tasks s))
                \<and> mset ts = mset (tasks s)
          else sort_tasks ''due_date'' r s = (Inl ValueError, s))"
proof (cases "list_all accepted (tasks s)")
  case True
  have "py_sort (\<lambda>t. due_key (due_date t)) r (tasks s)
        = Inr (stable_sort parsed_date r (tasks s))"
  proof (rule py_sort_total)
    fix t assume "t \<in> set (tasks s)"
    with True have "accepted t" by (simp add: list_all_iff)
    then show "due_key (due_date t) = Inr (parsed_date t)"
      by (auto simp add: accepted_def parsed_date_def)
  qed
  then have st: "sort_tasks ''due_date'' r s
      = (Inr (stable_sort parsed_date r (tasks s)),
         s\<lparr>tasks := stable_sort parsed_date r (tasks s)\<rparr>)"
    by (simp add: sort_tasks_def Let_def)
  show ?thesis
    using True stable_sort_sorted [of parsed_date "tasks s"]
    by (simp add: st Let_def stable_sort_stable mset_stable_sort)
next
  case False
  then obtain t where t: "t \<in> set (tasks s)" "\<not> accepted t"
    by (auto simp add: list_all_iff)
  with assms have "is_str (due_date t)" by (simp add: list_all_iff)
  with t have "\<exists>e. due_key (due_date t) = Inl e"
    by (cases "due_date t"; cases "due_key (due_date t)") (auto simp add: accepted_def)
  with t have "\<exists>e. py_sort (\<lambda>t. due_key (due_date t)) r (tasks s) = Inl e"
    unfolding py_sort_Inl by blast
  then obtain e where e: "py_sort (\<lambda>t. due_key (due_date t)) r (tasks s) = Inl e"
    by blast
  then have "map_e (\<lambda>t. due_key (due_date t)) (tasks s) = Inl e"
    by (cases "map_e (\<lambda>t. due_key (due_date t)) (tasks s)") (simp_all add: py_sort_def bind_e_def Let_def)
  then obtain u where "u \<in> set (tasks s)" "due_key (due_date u) = Inl e"
    using map_e_Inl_elem by fastforce
  with assms have "e = ValueError"
    by (auto simp add: list_all_iff dest: due_key_str)
  with e False show ?thesis
    by (simp add: sort_tasks_def Let_def)
qed

theorem due_date_sort_witness:
  "list_all (\<lambda>t. is_str (due_date t)) (tasks (demo_store demo_tasks))
   \<and> list_all accepted (tasks (demo_store demo_tasks))
   \<and> sorted (rev (map parsed_date (tasks (snd (sort_tasks ''due_date'' True (demo_store demo_tasks))))))
   \<and> \<not> list_all accepted
         (tasks (demo_store [Task (JStr ''x'') (JStr '''') (JStr ''low'') (JStr ''2024-13-01'')]))
   \<and> sort_tasks ''due_date'' True
         (demo_store [Task (JStr ''x'') (JStr '''') (JStr ''low'') (JStr ''2024-13-01'')])
     = (Inl ValueError,
        demo_store [Task (JStr ''x'') (JStr '''') (JStr ''low'') (JStr ''2024-13-01'')])"
proof -
  let ?bad = "demo_store [Task (JStr ''x'') (JStr '''') (JStr ''low'') (JStr ''2024-13-01'')]"
  have str1: "list_all (\<lambda>t. is_str (due_date t)) (tasks (demo_store demo_tasks))"
    by (simp add: demo_store_def demo_tasks_def Task_def)
  have acc1: "list_all accepted (tasks (demo_store demo_tasks))"
    by (simp add: demo_store_def demo_tasks_def Task_def accepted_def demo_strptime)
  have str2: "list_all (\<lambda>t. is_str (due_date t)) (tasks ?bad)"
    by (simp add: demo_store_def Task_def)
  have acc2: "\<not> list_all accepted (tasks ?bad)"
    by (simp add: demo_store_def Task_def accepted_def demo_strptime)
  from due_date_sort [OF str1, of True] acc1
  have "sorted (rev (map parsed_date (tasks (snd (sort_tasks ''due_date'' True (demo_store demo_tasks))))))"
    by (simp add: Let_def)
  moreover from due_date_sort [OF str2, of True] acc2
  have "sort_tasks ''due_date'' True ?bad = (Inl ValueError, ?bad)"
    by simp
  ultimately show ?thesis
    using str1 acc1 acc2 by blast
qed

end
